theory Spec2Isabelle
  imports Complex_Main
begin

section \<open>The streaming recorder of \<^verbatim>\<open>rpi_files/pycam.py\<close>\<close>

text \<open>
  The recorder drives three external stages (\<^verbatim>\<open>rpicam-vid\<close>, \<^verbatim>\<open>ffmpeg\<close> and a
  conceptual \<^verbatim>\<open>gpg\<close>) that are connected by named pipes. Everything the Python
  code does to the operating system is made explicit here: the file system, the
  table of child processes and the printed messages are fields of a \<open>world\<close>
  record that every operation takes and returns, and every exception of the
  source is a value (\<open>Raised\<close>) that the model of the enclosing
  \<^verbatim>\<open>try\<close>/\<^verbatim>\<open>except\<close> inspects.
\<close>

subsection \<open>Paths and the file system\<close>

text \<open>
  A path is kept as the pair of its directory and its base name. All base names
  of the program (\<^verbatim>\<open>video_stream\<close>, \<^verbatim>\<open>mp4_stream\<close>, \<^verbatim>\<open>recording_<timestamp>.mp4\<close>)
  are free of separators, so \<^verbatim>\<open>os.path.join\<close> is pairing and \<^verbatim>\<open>os.path.dirname\<close>
  is the first projection.
\<close>

type_synonym path = "string \<times> string"

definition path_join :: "string \<Rightarrow> string \<Rightarrow> path" where
  "path_join folder name = (folder, name)"

definition dirname :: "path \<Rightarrow> string" where
  "dirname p = fst p"

datatype kind = Regular | Fifo | Directory

record fsobj =
  kind :: kind
  st_size :: nat

definition fresh_fifo :: fsobj where
  "fresh_fifo = \<lparr>kind = Fifo, st_size = 0\<rparr>"

subsection \<open>Exceptions, child processes, messages, events\<close>

datatype exn = OSError | TimeoutExpired | RuntimeError

datatype 'a outcome = Ok 'a | Raised exn

text \<open>
  A child process as the recorder sees it through \<^verbatim>\<open>subprocess.Popen\<close>:
  \<open>running\<close> is \<^verbatim>\<open>poll() is None\<close>, \<open>has_stdin\<close> is \<^verbatim>\<open>stdin is not None\<close>. The
  remaining fields fix how the process answers the calls of the stop protocol,
  as a mock would: which calls raise, and whether the process exits within the
  five seconds of \<^verbatim>\<open>wait(timeout=5)\<close>.
\<close>

record proc =
  running :: bool
  has_stdin :: bool
  terminate_raises :: bool
  close_raises :: bool
  wait_raises :: bool
  kill_raises :: bool
  exits_in_grace :: bool

datatype message =
    PipeError
  | Mp4PipeError
  | ConceptualEncryption path path
  | PipelineStarted path
  | StartError
  | Stopping
  | StoppingProcess string
  | StoppedGracefully string
  | ForceKilling string
  | StopError string
  | CleanupError
  | RecordingComplete path nat
  | OutputEmpty
  | NoOutputFile
  | CooldownActive
  | FailedToStart

datatype event =
    Remove path
  | Mkfifo path
  | Popen string nat
  | PopenFailed string
  | ThreadStart string
  | Poll nat
  | Terminate nat
  | CloseStdin nat
  | Wait nat
  | Kill nat
  | LedLow
  | Makedirs string
  | Print message

subsection \<open>The world and the recorder object\<close>

text \<open>
  \<open>fs\<close> is the file system, \<open>procs\<close> the state of every \<^verbatim>\<open>Popen\<close> object by
  process number and \<open>next_pid\<close> the number the next launched process gets.
  \<open>remove_denied\<close>, \<open>mkfifo_denied\<close> and \<open>makedirs_denied\<close> say where the
  operating system refuses the call (a permission error), \<open>launch\<close> gives the
  process a command starts as, or \<open>None\<close> when \<^verbatim>\<open>Popen\<close> raises. \<open>now\<close> is
  the formatted timestamp, \<open>encryption_active\<close> the module global
  \<^verbatim>\<open>ENCRYPTION_ACTIVE\<close>, \<open>led\<close> the level of the LED pin, and \<open>trace\<close> lists, in
  order, every operating-system call and every printed message.
\<close>

record world =
  fs :: "path \<Rightarrow> fsobj option"
  procs :: "nat \<Rightarrow> proc"
  next_pid :: nat
  remove_denied :: "path \<Rightarrow> bool"
  mkfifo_denied :: "path \<Rightarrow> bool"
  makedirs_denied :: "string \<Rightarrow> bool"
  launch :: "string \<Rightarrow> proc option"
  now :: string
  encryption_active :: bool
  led :: bool
  trace :: "event list"

record recorder =
  recording_active :: bool
  processes :: "string \<Rightarrow> nat option"
  output_file :: "path option"
  temp_fifo :: "path option"

text \<open>\<^verbatim>\<open>StreamingRecorder.__init__\<close>\<close>

definition init_recorder :: recorder where
  "init_recorder =
     \<lparr>recording_active = False, processes = Map.empty, output_file = None, temp_fifo = None\<rparr>"

definition emit :: "event \<Rightarrow> world \<Rightarrow> world" where
  "emit e w = w\<lparr>trace := trace w @ [e]\<rparr>"

definition print :: "message \<Rightarrow> world \<Rightarrow> world" where
  "print m w = emit (Print m) w"

subsection \<open>Operating-system calls\<close>

definition os_path_exists :: "path \<Rightarrow> world \<Rightarrow> bool" where
  "os_path_exists p w = (fs w p \<noteq> None)"

text \<open>\<^verbatim>\<open>os.remove\<close> raises on a missing path, on a directory and where it is denied.\<close>

definition os_remove :: "path \<Rightarrow> world \<Rightarrow> unit outcome \<times> world" where
  "os_remove p w =
     (let w1 = emit (Remove p) w in
      case fs w p of
        None \<Rightarrow> (Raised OSError, w1)
      | Some ob \<Rightarrow>
          if kind ob = Directory \<or> remove_denied w p then (Raised OSError, w1)
          else (Ok (), w1\<lparr>fs := (fs w1)(p := None)\<rparr>))"

text \<open>\<^verbatim>\<open>os.mkfifo\<close> raises on an existing path and where it is denied.\<close>

definition os_mkfifo :: "path \<Rightarrow> world \<Rightarrow> unit outcome \<times> world" where
  "os_mkfifo p w =
     (let w1 = emit (Mkfifo p) w in
      if fs w p \<noteq> None \<or> mkfifo_denied w p then (Raised OSError, w1)
      else (Ok (), w1\<lparr>fs := (fs w1)(p \<mapsto> fresh_fifo)\<rparr>))"

text \<open>\<^verbatim>\<open>os.path.getsize\<close>, called only after \<^verbatim>\<open>os.path.exists\<close> succeeded.\<close>

definition os_path_getsize :: "path \<Rightarrow> world \<Rightarrow> nat" where
  "os_path_getsize p w = (case fs w p of None \<Rightarrow> 0 | Some ob \<Rightarrow> st_size ob)"

text \<open>\<^verbatim>\<open>subprocess.Popen(cmd, ...)\<close>\<close>

definition popen :: "string \<Rightarrow> world \<Rightarrow> nat outcome \<times> world" where
  "popen cmd w =
     (case launch w cmd of
        None \<Rightarrow> (Raised OSError, emit (PopenFailed cmd) w)
      | Some p \<Rightarrow>
          (Ok (next_pid w),
           emit (Popen cmd (next_pid w))
             (w\<lparr>procs := (procs w)(next_pid w := p), next_pid := Suc (next_pid w)\<rparr>)))"

definition set_running :: "nat \<Rightarrow> bool \<Rightarrow> world \<Rightarrow> world" where
  "set_running pid b w = w\<lparr>procs := (procs w)(pid := (procs w pid)\<lparr>running := b\<rparr>)\<rparr>"

text \<open>\<^verbatim>\<open>process.terminate()\<close>: the signal is sent; whether the process exits shows at the wait.\<close>

definition proc_terminate :: "nat \<Rightarrow> world \<Rightarrow> unit outcome \<times> world" where
  "proc_terminate pid w =
     (let w1 = emit (Terminate pid) w in
      if terminate_raises (procs w pid) then (Raised OSError, w1) else (Ok (), w1))"

text \<open>\<^verbatim>\<open>process.stdin.close()\<close>\<close>

definition stdin_close :: "nat \<Rightarrow> world \<Rightarrow> unit outcome \<times> world" where
  "stdin_close pid w =
     (let w1 = emit (CloseStdin pid) w in
      if close_raises (procs w pid) then (Raised OSError, w1) else (Ok (), w1))"

text \<open>\<^verbatim>\<open>process.wait(timeout=5)\<close>\<close>

definition proc_wait_timeout :: "nat \<Rightarrow> world \<Rightarrow> unit outcome \<times> world" where
  "proc_wait_timeout pid w =
     (let w1 = emit (Wait pid) w in
      if wait_raises (procs w pid) then (Raised OSError, w1)
      else if \<not> running (procs w pid) \<or> exits_in_grace (procs w pid)
           then (Ok (), set_running pid False w1)
      else (Raised TimeoutExpired, w1))"

text \<open>\<^verbatim>\<open>process.kill()\<close>\<close>

definition proc_kill :: "nat \<Rightarrow> world \<Rightarrow> unit outcome \<times> world" where
  "proc_kill pid w =
     (let w1 = emit (Kill pid) w in
      if kill_raises (procs w pid) then (Raised OSError, w1)
      else (Ok (), set_running pid False w1))"

text \<open>\<^verbatim>\<open>process.wait()\<close> after the kill: the process is gone, the call reaps it.\<close>

definition proc_wait :: "nat \<Rightarrow> world \<Rightarrow> unit outcome \<times> world" where
  "proc_wait pid w = (Ok (), set_running pid False (emit (Wait pid) w))"

subsection \<open>Creating the channels and launching the stages\<close>

text \<open>
  The body of the \<^verbatim>\<open>try\<close> block that \<^verbatim>\<open>create_named_pipe\<close> and
  \<^verbatim>\<open>start_ffmpeg_conversion\<close> share:
  \<^verbatim>\<open>if os.path.exists(p): os.remove(p)\<close> followed by \<^verbatim>\<open>os.mkfifo(p)\<close>.
\<close>

definition remove_then_mkfifo :: "path \<Rightarrow> world \<Rightarrow> unit outcome \<times> world" where
  "remove_then_mkfifo p w =
     (if os_path_exists p w then
        (case os_remove p w of
           (Raised e, w1) \<Rightarrow> (Raised e, w1)
         | (Ok _, w1) \<Rightarrow> os_mkfifo p w1)
      else os_mkfifo p w)"

text \<open>\<^verbatim>\<open>StreamingRecorder.create_named_pipe\<close>: \<open>None\<close> is Python's \<^verbatim>\<open>None\<close>.\<close>

definition create_named_pipe :: "string \<Rightarrow> world \<Rightarrow> path option \<times> world" where
  "create_named_pipe folder_path w =
     (let pipe_path = path_join folder_path ''video_stream'' in
      case remove_then_mkfifo pipe_path w of
        (Ok _, w1) \<Rightarrow> (Some pipe_path, w1)
      | (Raised e, w1) \<Rightarrow> (None, print PipeError w1))"

text \<open>
  \<^verbatim>\<open>StreamingRecorder.start_camera_capture\<close>: \<^verbatim>\<open>Popen\<close> is outside any
  \<^verbatim>\<open>try\<close>, so its exception leaves the method; then the pump thread
  \<^verbatim>\<open>stream_to_pipe\<close> is started (its loop is modelled below).
\<close>

definition start_camera_capture :: "path \<Rightarrow> world \<Rightarrow> nat outcome \<times> world" where
  "start_camera_capture pipe_path w =
     (case popen ''rpicam-vid'' w of
        (Raised e, w1) \<Rightarrow> (Raised e, w1)
      | (Ok camera_process, w1) \<Rightarrow>
          (Ok camera_process, emit (ThreadStart ''stream_to_pipe'') w1))"

text \<open>
  \<^verbatim>\<open>StreamingRecorder.start_ffmpeg_conversion\<close>: the result \<^verbatim>\<open>(None, None)\<close> is
  \<open>Ok None\<close>, the pair \<^verbatim>\<open>(ffmpeg_process, mp4_pipe)\<close> is \<open>Ok (Some _)\<close>, and an
  exception of \<^verbatim>\<open>Popen\<close> leaves the method.
\<close>

definition start_ffmpeg_conversion ::
  "path \<Rightarrow> path \<Rightarrow> world \<Rightarrow> (nat \<times> path) option outcome \<times> world" where
  "start_ffmpeg_conversion pipe_path output_path w =
     (let mp4_pipe = path_join (dirname pipe_path) ''mp4_stream'' in
      case remove_then_mkfifo mp4_pipe w of
        (Raised e, w1) \<Rightarrow> (Ok None, print Mp4PipeError w1)
      | (Ok _, w1) \<Rightarrow>
          (case popen ''ffmpeg'' w1 of
             (Raised e, w2) \<Rightarrow> (Raised e, w2)
           | (Ok ffmpeg_process, w2) \<Rightarrow> (Ok (Some (ffmpeg_process, mp4_pipe)), w2)))"

text \<open>
  \<^verbatim>\<open>StreamingRecorder.start_gpg_encryption\<close>: the \<^verbatim>\<open>Popen\<close> call is commented
  out in the source; the method prints and returns \<^verbatim>\<open>None\<close>.
\<close>

definition start_gpg_encryption :: "path \<Rightarrow> path \<Rightarrow> world \<Rightarrow> nat option \<times> world" where
  "start_gpg_encryption mp4_pipe encrypted_output w =
     (None, print (ConceptualEncryption mp4_pipe encrypted_output) w)"

subsection \<open>Stopping the pipeline\<close>

text \<open>
  The body of the \<^verbatim>\<open>try\<close> block of the stop loop, for the process \<open>pid\<close> stored
  under \<open>process_name\<close>. The inner bare \<^verbatim>\<open>except: pass\<close> around
  \<^verbatim>\<open>stdin.close()\<close> drops the exception (\<open>snd\<close>); \<^verbatim>\<open>TimeoutExpired\<close> of the
  wait leads to the kill; every other exception leaves the block.
\<close>

definition stop_process :: "string \<Rightarrow> nat \<Rightarrow> world \<Rightarrow> unit outcome \<times> world" where
  "stop_process process_name pid w =
     (let w0 = emit (Poll pid) w in
      if running (procs w0 pid) then
        (let w1 = print (StoppingProcess process_name) w0 in
         case (if process_name = ''camera'' then proc_terminate pid w1 else (Ok (), w1)) of
           (Raised e, w2) \<Rightarrow> (Raised e, w2)
         | (Ok _, w2) \<Rightarrow>
             (let w3 = (if process_name \<in> set [''ffmpeg'', ''gpg''] \<and> has_stdin (procs w2 pid)
                        then snd (stdin_close pid w2) else w2) in
              case proc_wait_timeout pid w3 of
                (Ok _, w4) \<Rightarrow> (Ok (), print (StoppedGracefully process_name) w4)
              | (Raised TimeoutExpired, w4) \<Rightarrow>
                  (case proc_kill pid (print (ForceKilling process_name) w4) of
                     (Raised e, w5) \<Rightarrow> (Raised e, w5)
                   | (Ok _, w5) \<Rightarrow> proc_wait pid w5)
              | (Raised e, w4) \<Rightarrow> (Raised e, w4)))
      else (Ok (), w0))"

text \<open>
  One iteration of \<^verbatim>\<open>for process_name in ['camera', 'ffmpeg', 'gpg']\<close>: the
  membership test, the \<^verbatim>\<open>try\<close> block and its \<^verbatim>\<open>except Exception\<close> handler.
\<close>

definition stop_stage :: "recorder \<Rightarrow> string \<Rightarrow> world \<Rightarrow> world" where
  "stop_stage r process_name w =
     (case processes r process_name of
        None \<Rightarrow> w
      | Some pid \<Rightarrow>
          (case stop_process process_name pid w of
             (Ok _, w1) \<Rightarrow> w1
           | (Raised e, w1) \<Rightarrow> print (StopError process_name) w1))"

definition stop_order :: "string list" where
  "stop_order = [''camera'', ''ffmpeg'', ''gpg'']"

fun stop_stages :: "recorder \<Rightarrow> string list \<Rightarrow> world \<Rightarrow> world" where
  "stop_stages r [] w = w"
| "stop_stages r (process_name # names) w = stop_stages r names (stop_stage r process_name w)"

text \<open>
  The loop \<^verbatim>\<open>for pipe_name in ["video_stream", "mp4_stream"]\<close> inside its
  \<^verbatim>\<open>try\<close>: the first \<^verbatim>\<open>os.remove\<close> that raises ends the loop.
\<close>

fun remove_pipes :: "string \<Rightarrow> string list \<Rightarrow> world \<Rightarrow> unit outcome \<times> world" where
  "remove_pipes folder_path [] w = (Ok (), w)"
| "remove_pipes folder_path (pipe_name # names) w =
     (let pipe_path = path_join folder_path pipe_name in
      if os_path_exists pipe_path w then
        (case os_remove pipe_path w of
           (Raised e, w1) \<Rightarrow> (Raised e, w1)
         | (Ok _, w1) \<Rightarrow> remove_pipes folder_path names w1)
      else remove_pipes folder_path names w)"

text \<open>
  ``Clean up named pipes'': nothing happens without an output file (or with one
  whose directory name is empty).
\<close>

definition cleanup_pipes :: "recorder \<Rightarrow> world \<Rightarrow> world" where
  "cleanup_pipes r w =
     (case output_file r of
        None \<Rightarrow> w
      | Some out \<Rightarrow>
          if dirname out = [] then w
          else (case remove_pipes (dirname out) [''video_stream'', ''mp4_stream''] w of
                  (Ok _, w1) \<Rightarrow> w1
                | (Raised e, w1) \<Rightarrow> print CleanupError w1))"

text \<open>``Check final output''\<close>

definition check_final_output :: "recorder \<Rightarrow> world \<Rightarrow> world" where
  "check_final_output r w =
     (case output_file r of
        None \<Rightarrow> print NoOutputFile w
      | Some out \<Rightarrow>
          if os_path_exists out w then
            (let file_size = os_path_getsize out w in
             if file_size > 0 then print (RecordingComplete out file_size) w
             else print OutputEmpty w)
          else print NoOutputFile w)"

text \<open>
  \<^verbatim>\<open>StreamingRecorder.stop_streaming_recording\<close>. \<^verbatim>\<open>GPIO.output(LED_PIN, GPIO.LOW)\<close>
  belongs to the LED driver and is taken not to raise.
\<close>

definition stop_streaming_recording :: "recorder \<Rightarrow> world \<Rightarrow> recorder \<times> world" where
  "stop_streaming_recording r w =
     (let w1 = print Stopping w;
          r1 = r\<lparr>recording_active := False\<rparr>;
          w2 = w1\<lparr>encryption_active := False\<rparr>;
          w3 = stop_stages r1 stop_order w2;
          w4 = cleanup_pipes r1 w3;
          w5 = check_final_output r1 w4
      in (r1\<lparr>processes := Map.empty, output_file := None\<rparr>,
          emit LedLow (w5\<lparr>led := False\<rparr>)))"

subsection \<open>Starting the pipeline\<close>

text \<open>The \<^verbatim>\<open>except Exception\<close> handler of \<^verbatim>\<open>start_streaming_recording\<close>.\<close>

definition start_failed :: "recorder \<Rightarrow> world \<Rightarrow> bool \<times> recorder \<times> world" where
  "start_failed r w = (False, stop_streaming_recording r (print StartError w))"

text \<open>
  The end of the \<^verbatim>\<open>try\<close> block: the output file is recorded, the global
  \<^verbatim>\<open>ENCRYPTION_ACTIVE\<close> is set and the LED thread is started.
\<close>

definition start_finish :: "path \<Rightarrow> recorder \<Rightarrow> world \<Rightarrow> bool \<times> recorder \<times> world" where
  "start_finish encrypted_output r w =
     (True, r\<lparr>output_file := Some encrypted_output\<rparr>,
      print (PipelineStarted encrypted_output)
        (emit (ThreadStart ''blink_led_recording'') (w\<lparr>encryption_active := True\<rparr>)))"

text \<open>
  \<^verbatim>\<open>StreamingRecorder.start_streaming_recording\<close>. The two \<^verbatim>\<open>return False\<close>
  statements inside the \<^verbatim>\<open>try\<close> block return at once; only a raised exception
  reaches the handler. The \<^verbatim>\<open>time.sleep\<close> calls have no effect on the state.
\<close>

definition start_streaming_recording :: "string \<Rightarrow> recorder \<Rightarrow> world \<Rightarrow> bool \<times> recorder \<times> world" where
  "start_streaming_recording folder_path r w =
     (let r1 = r\<lparr>recording_active := True\<rparr>;
          encrypted_output = path_join folder_path (''recording_'' @ now w @ ''.mp4'')
      in case create_named_pipe folder_path w of
           (None, w1) \<Rightarrow> (False, r1, w1)
         | (Some camera_pipe, w1) \<Rightarrow>
             (case start_camera_capture camera_pipe w1 of
                (Raised e, w2) \<Rightarrow> start_failed r1 w2
              | (Ok camera_process, w2) \<Rightarrow>
                  (let r2 = r1\<lparr>processes := (processes r1)(''camera'' \<mapsto> camera_process)\<rparr> in
                   case start_ffmpeg_conversion camera_pipe encrypted_output w2 of
                     (Raised e, w3) \<Rightarrow> start_failed r2 w3
                   | (Ok None, w3) \<Rightarrow> (False, r2, w3)
                   | (Ok (Some (ffmpeg_process, mp4_pipe)), w3) \<Rightarrow>
                       (let r3 = r2\<lparr>processes := (processes r2)(''ffmpeg'' \<mapsto> ffmpeg_process)\<rparr> in
                        case start_gpg_encryption mp4_pipe encrypted_output w3 of
                          (Some gpg_process, w4) \<Rightarrow>
                            start_finish encrypted_output
                              (r3\<lparr>processes := (processes r3)(''gpg'' \<mapsto> gpg_process)\<rparr>) w4
                        | (None, w4) \<Rightarrow>
                            start_finish encrypted_output r3
                              (emit (ThreadStart ''copy_mp4_to_output'') w4)))))"

subsection \<open>The button handler of \<^verbatim>\<open>main\<close>\<close>

definition START_COOLDOWN :: real where
  "START_COOLDOWN = 5"

definition ASSETS_DIR :: string where
  "ASSETS_DIR = ''~/assets''"

text \<open>\<^verbatim>\<open>create_recording_folder\<close>: \<^verbatim>\<open>os.makedirs\<close> may raise.\<close>

definition create_recording_folder :: "world \<Rightarrow> string outcome \<times> world" where
  "create_recording_folder w =
     (let folder_path = ASSETS_DIR @ ''/'' @ ''recording_'' @ now w;
          w1 = emit (Makedirs folder_path) w
      in if makedirs_denied w folder_path then (Raised OSError, w1) else (Ok folder_path, w1))"

text \<open>
  The branch of the main loop taken when the button is released:
  \<open>press_duration\<close> and \<open>current_time\<close> are the two clock readings,
  \<open>start_cooldown_until\<close> the loop variable. An exception of
  \<^verbatim>\<open>create_recording_folder\<close> leaves the loop.
\<close>

definition button_released ::
  "real \<Rightarrow> real \<Rightarrow> real \<Rightarrow> recorder \<Rightarrow> world \<Rightarrow> (real \<times> recorder \<times> world) outcome" where
  "button_released press_duration current_time start_cooldown_until r w =
     (if press_duration < 0.5 then
        (if \<not> recording_active r then
           (if current_time < start_cooldown_until
            then Ok (start_cooldown_until, r, print CooldownActive w)
            else (case create_recording_folder w of
                    (Raised e, w1) \<Rightarrow> Raised e
                  | (Ok folder, w1) \<Rightarrow>
                      (case start_streaming_recording folder r w1 of
                         (True, r', w2) \<Rightarrow>
                           Ok (current_time + START_COOLDOWN, r',
                               emit (ThreadStart ''blink_led_cooldown'') w2)
                       | (False, r', w2) \<Rightarrow>
                           Ok (start_cooldown_until, r', print FailedToStart w2))))
         else (case stop_streaming_recording r w of
                 (r', w') \<Rightarrow> Ok (start_cooldown_until, r', w')))
      else Ok (start_cooldown_until, r, w))"

subsection \<open>The pumps\<close>

text \<open>
  A pump runs in its own thread. What it sees of the rest of the program at each
  turn of its loop is given as a list of observations: the shared flag
  \<^verbatim>\<open>recording_active\<close>, whether the camera process is alive, what the read
  returned (\<open>Chunk []\<close> is the zero-length read) and whether the write
  succeeds. The result is \<open>None\<close> while the loop is still running at the end
  of the observations.
\<close>

datatype 'b read_result = Chunk "'b list" | ReadRaises

record 'b tick =
  flag :: bool
  alive :: bool
  rd :: "'b read_result"
  wr_ok :: bool

datatype pump_message =
    Progress nat nat
  | TotalStreamed nat nat
  | StreamError nat
  | CopyError

text \<open>
  The loop of \<^verbatim>\<open>stream_to_pipe\<close> with its counters \<open>bytes_written\<close> and
  \<open>chunk_count\<close>; \<open>out\<close> is what has been written to the pipe, \<open>printed\<close> what has
  been printed.
\<close>

fun stream_loop ::
  "'b tick list \<Rightarrow> nat \<Rightarrow> nat \<Rightarrow> 'b list \<Rightarrow> pump_message list
     \<Rightarrow> ('b list \<times> pump_message list) option" where
  "stream_loop [] bytes_written chunk_count out printed = None"
| "stream_loop (t # ts) bytes_written chunk_count out printed =
     (if flag t \<and> alive t then
        (case rd t of
           ReadRaises \<Rightarrow> Some (out, printed @ [StreamError bytes_written])
         | Chunk data \<Rightarrow>
             if data \<noteq> [] then
               (if wr_ok t then
                  (let bw = bytes_written + length data; cc = chunk_count + 1 in
                   stream_loop ts bw cc (out @ data)
                     (if cc mod 100 = 0 then printed @ [Progress bw cc] else printed))
                else Some (out, printed @ [StreamError bytes_written]))
             else stream_loop ts bytes_written chunk_count out printed)
      else Some (out, printed @ [TotalStreamed bytes_written chunk_count]))"

text \<open>\<^verbatim>\<open>stream_to_pipe\<close>: \<open>open_ok\<close> says whether opening the pipe succeeds.\<close>

definition stream_to_pipe :: "bool \<Rightarrow> 'b tick list \<Rightarrow> ('b list \<times> pump_message list) option" where
  "stream_to_pipe open_ok ts =
     (if open_ok then stream_loop ts 0 0 [] [] else Some ([], [StreamError 0]))"

text \<open>The loop of \<^verbatim>\<open>copy_mp4_to_output\<close>; it keeps no counter and prints only on an exception.\<close>

fun copy_loop ::
  "'b tick list \<Rightarrow> 'b list \<Rightarrow> ('b list \<times> pump_message list) option" where
  "copy_loop [] out = None"
| "copy_loop (t # ts) out =
     (if flag t then
        (case rd t of
           ReadRaises \<Rightarrow> Some (out, [CopyError])
         | Chunk data \<Rightarrow>
             if data = [] then Some (out, [])
             else if wr_ok t then copy_loop ts (out @ data)
             else Some (out, [CopyError]))
      else Some (out, []))"

definition copy_mp4_to_output :: "bool \<Rightarrow> 'b tick list \<Rightarrow> ('b list \<times> pump_message list) option" where
  "copy_mp4_to_output open_ok ts =
     (if open_ok then copy_loop ts [] else Some ([], [CopyError]))"

subsection \<open>Observations on the trace\<close>

text \<open>The process numbers polled by the stop loop, in the order of the calls.\<close>

fun poll_pid :: "event \<Rightarrow> nat list" where
  "poll_pid (Poll pid) = [pid]"
| "poll_pid _ = []"

definition polled :: "world \<Rightarrow> nat list" where
  "polled w = concat (map poll_pid (trace w))"

text \<open>The three messages of ``Check final output''.\<close>

fun verdict :: "event \<Rightarrow> bool" where
  "verdict (Print (RecordingComplete _ _)) = True"
| "verdict (Print OutputEmpty) = True"
| "verdict (Print NoOutputFile) = True"
| "verdict _ = False"

definition verdicts :: "world \<Rightarrow> event list" where
  "verdicts w = filter verdict (trace w)"

text \<open>The processes launched and the threads started.\<close>

fun launched :: "event \<Rightarrow> bool" where
  "launched (Popen _ _) = True"
| "launched _ = False"

definition launches :: "world \<Rightarrow> event list" where
  "launches w = filter launched (trace w)"

fun thread_name :: "event \<Rightarrow> string list" where
  "thread_name (ThreadStart name) = [name]"
| "thread_name _ = []"

definition threads :: "world \<Rightarrow> string list" where
  "threads w = concat (map thread_name (trace w))"

text \<open>The events that stopping the stages and removing the pipes can add.\<close>

fun teardown_event :: "event \<Rightarrow> bool" where
  "teardown_event (Poll _) = True"
| "teardown_event (Terminate _) = True"
| "teardown_event (CloseStdin _) = True"
| "teardown_event (Wait _) = True"
| "teardown_event (Kill _) = True"
| "teardown_event (Remove _) = True"
| "teardown_event (Print (StoppingProcess _)) = True"
| "teardown_event (Print (StoppedGracefully _)) = True"
| "teardown_event (Print (ForceKilling _)) = True"
| "teardown_event (Print (StopError _)) = True"
| "teardown_event (Print CleanupError) = True"
| "teardown_event _ = False"

subsection \<open>A sample world\<close>

text \<open>
  Both binaries are installed, no call is refused, every process exits within
  the grace period; only \<^verbatim>\<open>ffmpeg\<close> is launched with a standard input.
\<close>

definition quiet_proc :: proc where
  "quiet_proc =
     \<lparr>running = True, has_stdin = False, terminate_raises = False, close_raises = False,
      wait_raises = False, kill_raises = False, exits_in_grace = True\<rparr>"

definition ffmpeg_proc :: proc where
  "ffmpeg_proc = quiet_proc\<lparr>has_stdin := True\<rparr>"

definition demo_world :: world where
  "demo_world =
     \<lparr>fs = Map.empty, procs = (\<lambda>_. quiet_proc\<lparr>running := False\<rparr>), next_pid = 0,
      remove_denied = (\<lambda>_. False), mkfifo_denied = (\<lambda>_. False),
      makedirs_denied = (\<lambda>_. False),
      launch = (\<lambda>cmd. if cmd = ''rpicam-vid'' then Some quiet_proc
                       else if cmd = ''ffmpeg'' then Some ffmpeg_proc else None),
      now = ''T0'', encryption_active = False, led = False, trace = []\<rparr>"

text \<open>
  The recorder and the world after a successful start in the sample world: the
  camera is process 0, \<^verbatim>\<open>ffmpeg\<close> is process 1.
\<close>

definition active_recorder :: recorder where
  "active_recorder = fst (snd (start_streaming_recording ''/rec'' init_recorder demo_world))"

definition active_world :: world where
  "active_world = snd (snd (start_streaming_recording ''/rec'' init_recorder demo_world))"

text \<open>
  A world with a stale regular file where the camera pipe is to be created, and
  in which the second pipe cannot be created.
\<close>

definition stale_world :: world where
  "stale_world =
     demo_world\<lparr>fs := [(''/rec'', ''video_stream'') \<mapsto> \<lparr>kind = Regular, st_size = 7\<rparr>],
                 mkfifo_denied := (\<lambda>p. p = (''/rec'', ''mp4_stream''))\<rparr>"

text \<open>The sample session with a camera whose \<^verbatim>\<open>terminate()\<close> raises, on an empty trace.\<close>

definition camera_failing_world :: world where
  "camera_failing_world =
     active_world\<lparr>procs := (procs active_world)(0 := quiet_proc\<lparr>terminate_raises := True\<rparr>),
                   trace := []\<rparr>"

text \<open>Three observations of a pump: a zero-length read, a chunk, and the camera gone.\<close>

definition eof_tick :: "nat tick" where
  "eof_tick = \<lparr>flag = True, alive = True, rd = Chunk [], wr_ok = True\<rparr>"

definition data_tick :: "nat list \<Rightarrow> nat tick" where
  "data_tick d = \<lparr>flag = True, alive = True, rd = Chunk d, wr_ok = True\<rparr>"

definition exited_tick :: "nat tick" where
  "exited_tick = \<lparr>flag = True, alive = False, rd = Chunk [], wr_ok = True\<rparr>"

subsection \<open>Notions used by the properties\<close>

text \<open>The calls made on the process \<open>pid\<close>, in order.\<close>

fun stage_event :: "nat \<Rightarrow> event \<Rightarrow> bool" where
  "stage_event pid (Poll q) = (q = pid)"
| "stage_event pid (Terminate q) = (q = pid)"
| "stage_event pid (CloseStdin q) = (q = pid)"
| "stage_event pid (Wait q) = (q = pid)"
| "stage_event pid (Kill q) = (q = pid)"
| "stage_event pid _ = False"

definition stage_events :: "nat \<Rightarrow> world \<Rightarrow> event list" where
  "stage_events pid w = filter (stage_event pid) (trace w)"

text \<open>
  The processes on which stop makes its calls (\<^verbatim>\<open>poll\<close>, \<^verbatim>\<open>terminate\<close>,
  \<^verbatim>\<open>stdin.close\<close>, \<^verbatim>\<open>wait\<close>, \<^verbatim>\<open>kill\<close>), one entry per call, in order; and
  the \<open>Suc i\<close> calls on the process stored under a name, none if the name is
  absent.
\<close>

fun call_pid :: "event \<Rightarrow> nat list" where
  "call_pid (Poll pid) = [pid]"
| "call_pid (Terminate pid) = [pid]"
| "call_pid (CloseStdin pid) = [pid]"
| "call_pid (Wait pid) = [pid]"
| "call_pid (Kill pid) = [pid]"
| "call_pid _ = []"

definition called_on :: "world \<Rightarrow> nat list" where
  "called_on w = concat (map call_pid (trace w))"

definition stage_calls :: "recorder \<Rightarrow> string \<Rightarrow> nat \<Rightarrow> nat list" where
  "stage_calls r process_name i =
     (case processes r process_name of None \<Rightarrow> [] | Some pid \<Rightarrow> replicate (Suc i) pid)"

text \<open>Idle: no session, no processes, no output file.\<close>

definition idle :: "recorder \<Rightarrow> bool" where
  "idle r = (\<not> recording_active r \<and> processes r = Map.empty \<and> output_file r = None)"

text \<open>The message of ``Check final output'' for the file system at hand.\<close>

definition final_message :: "path option \<Rightarrow> world \<Rightarrow> message" where
  "final_message out w =
     (case out of
        None \<Rightarrow> NoOutputFile
      | Some p \<Rightarrow>
         (case fs w p of
            None \<Rightarrow> NoOutputFile
          | Some ob \<Rightarrow> if st_size ob > 0 then RecordingComplete p (st_size ob) else OutputEmpty))"

text \<open>
  \<open>removal_fails\<close>: there is an object at the path and \<^verbatim>\<open>os.remove\<close> raises on
  it. \<open>channel_fails\<close>: the removal fails, or \<^verbatim>\<open>os.mkfifo\<close> is refused.
\<close>

definition removal_fails :: "path \<Rightarrow> world \<Rightarrow> bool" where
  "removal_fails p w =
     (case fs w p of None \<Rightarrow> False | Some ob \<Rightarrow> kind ob = Directory \<or> remove_denied w p)"

definition channel_fails :: "path \<Rightarrow> world \<Rightarrow> bool" where
  "channel_fails p w = (removal_fails p w \<or> mkfifo_denied w p)"



section \<open>Properties\<close>

lemmas os_defs =
  emit_def print_def os_path_exists_def os_remove_def os_mkfifo_def os_path_getsize_def
  popen_def set_running_def proc_terminate_def stdin_close_def proc_wait_timeout_def
  proc_kill_def proc_wait_def path_join_def dirname_def fresh_fifo_def

lemmas recorder_defs =
  remove_then_mkfifo_def create_named_pipe_def start_camera_capture_def
  start_ffmpeg_conversion_def start_gpg_encryption_def stop_process_def stop_stage_def
  stop_order_def cleanup_pipes_def check_final_output_def stop_streaming_recording_def
  start_failed_def start_finish_def start_streaming_recording_def init_recorder_def

lemmas demo_defs = quiet_proc_def ffmpeg_proc_def demo_world_def

subsection \<open>What the stop loop changes\<close>

lemma teardown_not_verdict: "teardown_event e \<Longrightarrow> \<not> verdict e"
  by (induction e rule: teardown_event.induct) simp_all

lemma teardown_not_launched: "teardown_event e \<Longrightarrow> \<not> launched e"
  by (induction e rule: teardown_event.induct) simp_all

lemma teardown_filter_verdict: "list_all teardown_event evs \<Longrightarrow> filter verdict evs = []"
  by (induction evs) (simp_all add: teardown_not_verdict)

lemma teardown_filter_launched: "list_all teardown_event evs \<Longrightarrow> filter launched evs = []"
  by (induction evs) (simp_all add: teardown_not_launched)

lemma stop_process_fields:
  "fs (snd (stop_process n pid w)) = fs w \<and>
   next_pid (snd (stop_process n pid w)) = next_pid w \<and>
   encryption_active (snd (stop_process n pid w)) = encryption_active w"
  by (simp add: stop_process_def os_defs Let_def split: prod.split outcome.split exn.split)

lemma stop_process_trace:
  "\<exists>evs. trace (snd (stop_process n pid w)) = trace w @ Poll pid # evs \<and>
         list_all teardown_event evs \<and> concat (map poll_pid evs) = []"
  by (simp add: stop_process_def os_defs Let_def split: prod.split outcome.split exn.split)

lemma stop_stage_absent: "processes r n = None \<Longrightarrow> stop_stage r n w = w"
  by (simp add: stop_stage_def)

lemma stop_stage_fields:
  "fs (stop_stage r n w) = fs w \<and> next_pid (stop_stage r n w) = next_pid w \<and>
   encryption_active (stop_stage r n w) = encryption_active w"
proof (cases "processes r n")
  case None
  then show ?thesis by (simp add: stop_stage_def)
next
  case (Some pid)
  obtain res w1 where sp: "stop_process n pid w = (res, w1)"
    by (cases "stop_process n pid w")
  from stop_process_fields [of n pid w] sp
  have "fs w1 = fs w \<and> next_pid w1 = next_pid w \<and> encryption_active w1 = encryption_active w"
    by simp
  with Some sp show ?thesis
    by (cases res) (simp_all add: stop_stage_def print_def emit_def)
qed

lemma stop_stage_trace:
  assumes "processes r n = Some pid"
  shows "\<exists>evs. trace (stop_stage r n w) = trace w @ Poll pid # evs \<and>
               list_all teardown_event evs \<and> concat (map poll_pid evs) = []"
proof -
  obtain res w1 where sp: "stop_process n pid w = (res, w1)"
    by (cases "stop_process n pid w")
  from stop_process_trace [of n pid w] sp obtain evs where
    evs: "trace w1 = trace w @ Poll pid # evs" "list_all teardown_event evs"
         "concat (map poll_pid evs) = []"
    by auto
  show ?thesis
  proof (cases res)
    case (Ok u)
    with assms sp evs show ?thesis by (simp add: stop_stage_def)
  next
    case (Raised e)
    with assms sp evs
    have "trace (stop_stage r n w) = trace w @ Poll pid # (evs @ [Print (StopError n)])"
      by (simp add: stop_stage_def print_def emit_def)
    moreover from evs have "list_all teardown_event (evs @ [Print (StopError n)])" by simp
    moreover from evs have "concat (map poll_pid (evs @ [Print (StopError n)])) = []" by simp
    ultimately show ?thesis by blast
  qed
qed

lemma stop_stages_fields:
  "fs (stop_stages r ns w) = fs w \<and> next_pid (stop_stages r ns w) = next_pid w \<and>
   encryption_active (stop_stages r ns w) = encryption_active w"
  by (induction ns arbitrary: w) (simp_all add: stop_stage_fields)

lemma stop_stages_trace:
  "\<exists>evs. trace (stop_stages r ns w) = trace w @ evs \<and> list_all teardown_event evs \<and>
         concat (map poll_pid evs) = List.map_filter (processes r) ns"
proof (induction ns arbitrary: w)
  case Nil
  show ?case by simp
next
  case (Cons n ns)
  from Cons [of "stop_stage r n w"] obtain evs where
    evs: "trace (stop_stages r ns (stop_stage r n w)) = trace (stop_stage r n w) @ evs"
         "list_all teardown_event evs"
         "concat (map poll_pid evs) = List.map_filter (processes r) ns"
    by blast
  show ?case
  proof (cases "processes r n")
    case None
    with evs show ?thesis by (simp add: stop_stage_absent)
  next
    case (Some pid)
    from stop_stage_trace [OF Some, of w] obtain evs0 where
      evs0: "trace (stop_stage r n w) = trace w @ Poll pid # evs0"
            "list_all teardown_event evs0" "concat (map poll_pid evs0) = []"
      by blast
    have "trace (stop_stages r (n # ns) w) = trace w @ (Poll pid # evs0 @ evs)"
      using evs evs0 by simp
    moreover have "list_all teardown_event (Poll pid # evs0 @ evs)"
      using evs evs0 by simp
    moreover have "concat (map poll_pid (Poll pid # evs0 @ evs)) =
                   List.map_filter (processes r) (n # ns)"
      using evs evs0 Some by simp
    ultimately show ?thesis by blast
  qed
qed

subsection \<open>What the removal of the pipes changes\<close>

lemma remove_pipes_fields:
  "next_pid (snd (remove_pipes folder ns w)) = next_pid w \<and>
   encryption_active (snd (remove_pipes folder ns w)) = encryption_active w \<and>
   procs (snd (remove_pipes folder ns w)) = procs w"
  by (induction ns arbitrary: w)
     (simp_all add: os_defs Let_def split: prod.split outcome.split option.split)

lemma remove_pipes_fs:
  "name \<notin> set ns \<Longrightarrow> fs (snd (remove_pipes folder ns w)) (d, name) = fs w (d, name)"
  by (induction ns arbitrary: w)
     (simp_all add: os_defs Let_def split: prod.split outcome.split option.split)

lemma remove_pipes_trace:
  "\<exists>evs. trace (snd (remove_pipes folder ns w)) = trace w @ evs \<and> list_all teardown_event evs \<and>
         concat (map poll_pid evs) = []"
proof (induction ns arbitrary: w)
  case Nil
  show ?case by simp
next
  case (Cons n ns)
  let ?p = "path_join folder n"
  show ?case
  proof (cases "os_path_exists ?p w")
    case False
    with Cons [of w] show ?thesis by simp
  next
    case True
    obtain res w1 where rm: "os_remove ?p w = (res, w1)" by (cases "os_remove ?p w")
    then have tr: "trace w1 = trace w @ [Remove ?p]"
      by (auto simp: os_remove_def emit_def Let_def split: option.splits if_splits)
    show ?thesis
    proof (cases res)
      case (Raised e)
      with True rm tr show ?thesis by simp
    next
      case (Ok u)
      from Cons [of w1] obtain evs where
        evs: "trace (snd (remove_pipes folder ns w1)) = trace w1 @ evs"
             "list_all teardown_event evs" "concat (map poll_pid evs) = []"
        by blast
      have "trace (snd (remove_pipes folder (n # ns) w)) = trace w @ (Remove ?p # evs)"
        using True rm Ok tr evs by simp
      moreover have "list_all teardown_event (Remove ?p # evs)" using evs by simp
      moreover have "concat (map poll_pid (Remove ?p # evs)) = []" using evs by simp
      ultimately show ?thesis by blast
    qed
  qed
qed

lemma cleanup_pipes_fields:
  "next_pid (cleanup_pipes r w) = next_pid w \<and>
   encryption_active (cleanup_pipes r w) = encryption_active w \<and>
   procs (cleanup_pipes r w) = procs w"
proof (cases "output_file r")
  case None
  then show ?thesis by (simp add: cleanup_pipes_def)
next
  case (Some out)
  obtain res w1 where rp:
    "remove_pipes (dirname out) [''video_stream'', ''mp4_stream''] w = (res, w1)"
    by (cases "remove_pipes (dirname out) [''video_stream'', ''mp4_stream''] w")
  from remove_pipes_fields [of "dirname out" "[''video_stream'', ''mp4_stream'']" w] rp
  have "next_pid w1 = next_pid w \<and> encryption_active w1 = encryption_active w \<and> procs w1 = procs w"
    by simp
  with Some rp show ?thesis
    by (cases res) (simp_all add: cleanup_pipes_def print_def emit_def)
qed

lemma cleanup_pipes_fs:
  assumes "name \<noteq> ''video_stream''" "name \<noteq> ''mp4_stream''"
  shows "fs (cleanup_pipes r w) (d, name) = fs w (d, name)"
proof (cases "output_file r")
  case None
  then show ?thesis by (simp add: cleanup_pipes_def)
next
  case (Some out)
  obtain res w1 where rp:
    "remove_pipes (dirname out) [''video_stream'', ''mp4_stream''] w = (res, w1)"
    by (cases "remove_pipes (dirname out) [''video_stream'', ''mp4_stream''] w")
  from assms have "name \<notin> set [''video_stream'', ''mp4_stream'']" by simp
  from remove_pipes_fs [OF this, of "dirname out" w d] rp
  have "fs w1 (d, name) = fs w (d, name)" by simp
  with Some rp show ?thesis
    by (cases res) (simp_all add: cleanup_pipes_def print_def emit_def)
qed

lemma cleanup_pipes_trace:
  "\<exists>evs. trace (cleanup_pipes r w) = trace w @ evs \<and> list_all teardown_event evs \<and>
         concat (map poll_pid evs) = []"
proof (cases "output_file r")
  case None
  then show ?thesis by (simp add: cleanup_pipes_def)
next
  case (Some out)
  obtain res w1 where rp:
    "remove_pipes (dirname out) [''video_stream'', ''mp4_stream''] w = (res, w1)"
    by (cases "remove_pipes (dirname out) [''video_stream'', ''mp4_stream''] w")
  from remove_pipes_trace [of "dirname out" "[''video_stream'', ''mp4_stream'']" w] rp
  obtain evs where evs: "trace w1 = trace w @ evs" "list_all teardown_event evs"
    "concat (map poll_pid evs) = []"
    by auto
  show ?thesis
  proof (cases res)
    case (Ok u)
    with Some rp evs show ?thesis by (simp add: cleanup_pipes_def)
  next
    case (Raised e)
    with Some rp evs have "trace (cleanup_pipes r w) = trace w @ (if dirname out = [] then [] else evs @ [Print CleanupError])"
      by (simp add: cleanup_pipes_def print_def emit_def)
    moreover from evs have "list_all teardown_event (if dirname out = [] then [] else evs @ [Print CleanupError])" by simp
    moreover from evs have "concat (map poll_pid (if dirname out = [] then [] else evs @ [Print CleanupError])) = []" by simp
    ultimately show ?thesis by blast
  qed
qed

subsection \<open>Stop as a whole\<close>

lemma check_final_output_eq:
  "check_final_output r w = print (final_message (output_file r) w) w"
  by (simp add: check_final_output_def final_message_def os_defs Let_def split: option.split)

lemma stop_streaming_recording_eq:
  "stop_streaming_recording r w =
     (let r1 = r\<lparr>recording_active := False\<rparr>;
          w4 = cleanup_pipes r1 (stop_stages r1 stop_order ((print Stopping w)\<lparr>encryption_active := False\<rparr>))
      in (r1\<lparr>processes := Map.empty, output_file := None\<rparr>,
          emit LedLow ((print (final_message (output_file r) w4) w4)\<lparr>led := False\<rparr>)))"
  by (simp add: stop_streaming_recording_def check_final_output_eq Let_def)

lemma stop_teardown_trace:
  "\<exists>evs. trace (cleanup_pipes r (stop_stages r stop_order w)) = trace w @ evs \<and>
         list_all teardown_event evs \<and>
         concat (map poll_pid evs) = List.map_filter (processes r) stop_order"
proof -
  from stop_stages_trace [of r stop_order w] obtain evs1 where
    e1: "trace (stop_stages r stop_order w) = trace w @ evs1" "list_all teardown_event evs1"
        "concat (map poll_pid evs1) = List.map_filter (processes r) stop_order"
    by blast
  from cleanup_pipes_trace [of r "stop_stages r stop_order w"] obtain evs2 where
    e2: "trace (cleanup_pipes r (stop_stages r stop_order w)) =
           trace (stop_stages r stop_order w) @ evs2"
        "list_all teardown_event evs2" "concat (map poll_pid evs2) = []"
    by blast
  have "trace (cleanup_pipes r (stop_stages r stop_order w)) = trace w @ (evs1 @ evs2)"
    using e1 e2 by simp
  moreover have "list_all teardown_event (evs1 @ evs2)" using e1 e2 by simp
  moreover have "concat (map poll_pid (evs1 @ evs2)) = List.map_filter (processes r) stop_order"
    using e1 e2 by simp
  ultimately show ?thesis by blast
qed


lemma stop_fields:
  "next_pid (snd (stop_streaming_recording r w)) = next_pid w \<and>
   encryption_active (snd (stop_streaming_recording r w)) = False \<and>
   led (snd (stop_streaming_recording r w)) = False"
  by (simp add: stop_streaming_recording_eq Let_def print_def emit_def
        cleanup_pipes_fields stop_stages_fields)

lemma stop_trace:
  "\<exists>evs. trace (snd (stop_streaming_recording r w)) =
           trace w @ Print Stopping # evs @
             [Print (final_message (output_file r)
                (cleanup_pipes (r\<lparr>recording_active := False\<rparr>)
                  (stop_stages (r\<lparr>recording_active := False\<rparr>) stop_order
                     ((print Stopping w)\<lparr>encryption_active := False\<rparr>)))), LedLow] \<and>
         list_all teardown_event evs"
proof -
  let ?r1 = "r\<lparr>recording_active := False\<rparr>"
  let ?w2 = "(print Stopping w)\<lparr>encryption_active := False\<rparr>"
  from stop_teardown_trace [of ?r1 ?w2] obtain evs where
    evs: "trace (cleanup_pipes ?r1 (stop_stages ?r1 stop_order ?w2)) = trace ?w2 @ evs"
         "list_all teardown_event evs"
    by blast
  then show ?thesis
    by (simp add: stop_streaming_recording_eq Let_def print_def emit_def)
qed

lemma stop_launches: "launches (snd (stop_streaming_recording r w)) = launches w"
proof -
  from stop_trace [of r w] obtain evs m where
    "trace (snd (stop_streaming_recording r w)) = trace w @ Print Stopping # evs @ [Print m, LedLow]"
    "list_all teardown_event evs"
    by blast
  then show ?thesis by (simp add: launches_def teardown_filter_launched)
qed

lemma stop_verdict:
  assumes "output_file r = Some (d, name)" "name \<noteq> ''video_stream''" "name \<noteq> ''mp4_stream''"
  shows "verdicts (snd (stop_streaming_recording r w)) =
           verdicts w @ [Print (final_message (Some (d, name)) w)]"
proof -
  let ?r1 = "r\<lparr>recording_active := False\<rparr>"
  let ?w2 = "(print Stopping w)\<lparr>encryption_active := False\<rparr>"
  let ?w4 = "cleanup_pipes ?r1 (stop_stages ?r1 stop_order ?w2)"
  have "fs ?w4 (d, name) = fs (stop_stages ?r1 stop_order ?w2) (d, name)"
    using assms(2,3) by (rule cleanup_pipes_fs)
  then have fs4: "fs ?w4 (d, name) = fs w (d, name)"
    by (simp add: stop_stages_fields print_def emit_def)
  from stop_trace [of r w] obtain evs where
    evs: "trace (snd (stop_streaming_recording r w)) =
            trace w @ Print Stopping # evs @ [Print (final_message (output_file r) ?w4), LedLow]"
         "list_all teardown_event evs"
    by blast
  have "verdict (Print (final_message (output_file r) ?w4))"
    by (simp add: final_message_def split: option.split)
  with evs have "verdicts (snd (stop_streaming_recording r w)) =
      verdicts w @ [Print (final_message (output_file r) ?w4)]"
    by (simp add: verdicts_def teardown_filter_verdict)
  moreover have "final_message (output_file r) ?w4 = final_message (Some (d, name)) w"
    using assms(1) fs4 by (simp add: final_message_def)
  ultimately show ?thesis by simp
qed

subsection \<open>The calls on one process do not depend on the other stages\<close>

lemma stop_process_other:
  "q \<noteq> pid \<Longrightarrow>
   procs (snd (stop_process n q w)) pid = procs w pid \<and>
   stage_events pid (snd (stop_process n q w)) = stage_events pid w"
  by (simp add: stop_process_def os_defs Let_def stage_events_def
        split: prod.split outcome.split exn.split)

lemma stop_process_local:
  "procs v pid = procs w pid \<Longrightarrow>
   \<exists>evs. trace (snd (stop_process n pid w)) = trace w @ evs \<and>
         trace (snd (stop_process n pid v)) = trace v @ evs"
  by (simp add: stop_process_def os_defs Let_def split: prod.split outcome.split exn.split)

lemma stop_stage_events:
  "processes r n = Some q \<Longrightarrow>
   procs (stop_stage r n w) = procs (snd (stop_process n q w)) \<and>
   stage_events pid (stop_stage r n w) = stage_events pid (snd (stop_process n q w))"
  by (cases "stop_process n q w"; cases "fst (stop_process n q w)")
     (simp_all add: stop_stage_def print_def emit_def stage_events_def)

lemma stop_stage_other:
  assumes "processes r m \<noteq> Some pid"
  shows "procs (stop_stage r m w) pid = procs w pid \<and>
         stage_events pid (stop_stage r m w) = stage_events pid w"
proof (cases "processes r m")
  case None
  then show ?thesis by (simp add: stop_stage_absent)
next
  case (Some q)
  with assms have "q \<noteq> pid" by simp
  from stop_process_other [OF this, of m w] stop_stage_events [OF Some, of w pid]
  show ?thesis by simp
qed

lemma stop_stage_own:
  assumes "processes r n = Some pid" "procs v pid = procs w pid" "trace v = []"
  shows "stage_events pid (stop_stage r n w) =
           stage_events pid w @ stage_events pid (snd (stop_process n pid v))"
proof -
  from stop_process_local [OF assms(2), of n] obtain evs where
    "trace (snd (stop_process n pid w)) = trace w @ evs"
    "trace (snd (stop_process n pid v)) = trace v @ evs"
    by blast
  with assms(3) stop_stage_events [OF assms(1), of w pid] show ?thesis
    by (simp add: stage_events_def)
qed

lemma stop_stages_others:
  "\<forall>m \<in> set ns. processes r m \<noteq> Some pid \<Longrightarrow>
   procs (stop_stages r ns w) pid = procs w pid \<and>
   stage_events pid (stop_stages r ns w) = stage_events pid w"
  by (induction ns arbitrary: w) (simp_all add: stop_stage_other)

lemma stop_stages_own:
  assumes "processes r n = Some pid" "trace v = []"
  shows "n \<in> set ns \<Longrightarrow> distinct ns \<Longrightarrow>
         \<forall>m \<in> set ns. m \<noteq> n \<longrightarrow> processes r m \<noteq> Some pid \<Longrightarrow>
         procs v pid = procs w pid \<Longrightarrow>
         stage_events pid (stop_stages r ns w) =
           stage_events pid w @ stage_events pid (snd (stop_process n pid v))"
proof (induction ns arbitrary: w)
  case Nil
  then show ?case by simp
next
  case (Cons m ns)
  show ?case
  proof (cases "m = n")
    case True
    with Cons.prems have "\<forall>k \<in> set ns. processes r k \<noteq> Some pid" by auto
    from stop_stages_others [OF this, of "stop_stage r n w"]
      stop_stage_own [OF assms(1) Cons.prems(4) assms(2)] True
    show ?thesis by simp
  next
    case False
    with Cons.prems have others: "processes r m \<noteq> Some pid" and mem: "n \<in> set ns"
      and dist: "distinct ns"
      and rest: "\<forall>k \<in> set ns. k \<noteq> n \<longrightarrow> processes r k \<noteq> Some pid"
      by auto
    from stop_stage_other [OF others, of w] Cons.prems(4)
    have same: "procs v pid = procs (stop_stage r m w) pid"
      and ev: "stage_events pid (stop_stage r m w) = stage_events pid w"
      by simp_all
    from Cons.IH [OF mem dist rest same] ev show ?thesis by simp
  qed
qed

lemma remove_pipes_stage_events:
  "stage_events pid (snd (remove_pipes folder ns w)) = stage_events pid w"
  by (induction ns arbitrary: w)
     (simp_all add: os_defs Let_def stage_events_def split: prod.split outcome.split option.split)

lemma cleanup_pipes_stage_events:
  "stage_events pid (cleanup_pipes r w) = stage_events pid w"
proof (cases "output_file r")
  case None
  then show ?thesis by (simp add: cleanup_pipes_def)
next
  case (Some out)
  obtain res w1 where rp:
    "remove_pipes (dirname out) [''video_stream'', ''mp4_stream''] w = (res, w1)"
    by (cases "remove_pipes (dirname out) [''video_stream'', ''mp4_stream''] w")
  from remove_pipes_stage_events [of pid "dirname out" "[''video_stream'', ''mp4_stream'']" w] rp
  have "stage_events pid w1 = stage_events pid w" by simp
  with Some rp show ?thesis
    by (cases res) (simp_all add: cleanup_pipes_def print_def emit_def stage_events_def)
qed

lemma stop_stage_isolated:
  assumes "n \<in> set stop_order" "processes r n = Some pid"
    "\<forall>m \<in> set stop_order. m \<noteq> n \<longrightarrow> processes r m \<noteq> Some pid"
  shows "stage_events pid (snd (stop_streaming_recording r w)) =
           stage_events pid w @
           stage_events pid (snd (stop_process n pid (w\<lparr>trace := []\<rparr>)))"
proof -
  let ?r1 = "r\<lparr>recording_active := False\<rparr>"
  let ?w2 = "(print Stopping w)\<lparr>encryption_active := False\<rparr>"
  let ?v = "w\<lparr>trace := []\<rparr>"
  have d: "distinct stop_order" by (simp add: stop_order_def)
  have p: "processes ?r1 n = Some pid" using assms(2) by simp
  have o: "\<forall>m \<in> set stop_order. m \<noteq> n \<longrightarrow> processes ?r1 m \<noteq> Some pid"
    using assms(3) by simp
  have s: "procs ?v pid = procs ?w2 pid" by (simp add: print_def emit_def)
  have t: "trace ?v = []" by simp
  have "stage_events pid (snd (stop_streaming_recording r w)) =
          stage_events pid (cleanup_pipes ?r1 (stop_stages ?r1 stop_order ?w2))"
    by (simp add: stop_streaming_recording_eq Let_def print_def emit_def stage_events_def)
  also have "\<dots> = stage_events pid (stop_stages ?r1 stop_order ?w2)"
    by (rule cleanup_pipes_stage_events)
  also from stop_stages_own [OF p t assms(1) d o s]
  have "\<dots> = stage_events pid ?w2 @ stage_events pid (snd (stop_process n pid ?v))" .
  also have "stage_events pid ?w2 = stage_events pid w"
    by (simp add: print_def emit_def stage_events_def)
  finally show ?thesis .
qed

subsection \<open>The order of the calls on the processes\<close>

lemma stop_process_calls:
  "\<exists>cs. called_on (snd (stop_process n pid w)) = called_on w @ pid # cs \<and> set cs \<subseteq> {pid}"
  by (simp add: stop_process_def os_defs Let_def called_on_def
        split: prod.split outcome.split exn.split)

lemma stop_stage_calls:
  "\<exists>i. called_on (stop_stage r n w) = called_on w @ stage_calls r n i"
proof (cases "processes r n")
  case None
  then show ?thesis by (simp add: stop_stage_def stage_calls_def)
next
  case (Some pid)
  from stop_process_calls [of n pid w] obtain cs where
    cs: "called_on (snd (stop_process n pid w)) = called_on w @ pid # cs" "set cs \<subseteq> {pid}"
    by blast
  from cs(2) have "replicate (length cs) pid = cs"
    by (intro replicate_length_same) auto
  with cs(1) have "called_on (snd (stop_process n pid w)) =
      called_on w @ replicate (Suc (length cs)) pid"
    by simp
  moreover have "called_on (stop_stage r n w) = called_on (snd (stop_process n pid w))"
    using Some
    by (cases "stop_process n pid w"; cases "fst (stop_process n pid w)")
       (simp_all add: stop_stage_def print_def emit_def called_on_def)
  ultimately have "called_on (stop_stage r n w) = called_on w @ stage_calls r n (length cs)"
    using Some by (simp add: stage_calls_def)
  then show ?thesis ..
qed

lemma remove_pipes_calls:
  "called_on (snd (remove_pipes folder ns w)) = called_on w"
  by (induction ns arbitrary: w)
     (simp_all add: os_defs Let_def called_on_def split: prod.split outcome.split option.split)

lemma cleanup_pipes_calls:
  "called_on (cleanup_pipes r w) = called_on w"
proof (cases "output_file r")
  case None
  then show ?thesis by (simp add: cleanup_pipes_def)
next
  case (Some out)
  obtain res w1 where rp:
    "remove_pipes (dirname out) [''video_stream'', ''mp4_stream''] w = (res, w1)"
    by (cases "remove_pipes (dirname out) [''video_stream'', ''mp4_stream''] w")
  from remove_pipes_calls [of "dirname out" "[''video_stream'', ''mp4_stream'']" w] rp
  have "called_on w1 = called_on w" by simp
  with Some rp show ?thesis
    by (cases res) (simp_all add: cleanup_pipes_def print_def emit_def called_on_def)
qed

subsection \<open>Channel creation\<close>

lemma channel_fails_iff:
  "channel_fails p w = (fst (remove_then_mkfifo p w) \<noteq> Ok ())"
  by (auto simp: channel_fails_def removal_fails_def remove_then_mkfifo_def os_defs Let_def
        split: option.splits)

lemma remove_then_mkfifo_fails:
  assumes "channel_fails p w"
  shows "\<exists>e w'. remove_then_mkfifo p w = (Raised e, w') \<and>
           fs w' p = (if removal_fails p w then fs w p else None) \<and>
           next_pid w' = next_pid w \<and> launches w' = launches w \<and> threads w' = threads w"
  using assms
  by (auto simp: channel_fails_def removal_fails_def remove_then_mkfifo_def os_defs Let_def
        launches_def threads_def split: option.splits)

lemma remove_then_mkfifo_succeeds:
  assumes "\<not> channel_fails p w"
  shows "remove_then_mkfifo p w =
           (Ok (), w\<lparr>fs := (fs w)(p \<mapsto> fresh_fifo),
                      trace := trace w @ (if fs w p = None then [] else [Remove p]) @ [Mkfifo p]\<rparr>)"
  using assms
  by (auto simp: channel_fails_def removal_fails_def remove_then_mkfifo_def os_defs Let_def
        split: option.splits)


lemma create_named_pipe_fails:
  assumes "channel_fails (path_join folder ''video_stream'') w"
  shows "fst (create_named_pipe folder w) = None \<and>
         fs (snd (create_named_pipe folder w)) (path_join folder ''video_stream'') =
           (if removal_fails (path_join folder ''video_stream'') w
            then fs w (path_join folder ''video_stream'') else None)"
proof -
  from remove_then_mkfifo_fails [OF assms] obtain e w' where
    "remove_then_mkfifo (path_join folder ''video_stream'') w = (Raised e, w')"
    "fs w' (path_join folder ''video_stream'') =
       (if removal_fails (path_join folder ''video_stream'') w
        then fs w (path_join folder ''video_stream'') else None)"
    by blast
  then show ?thesis by (simp add: create_named_pipe_def print_def emit_def Let_def)
qed

lemma create_named_pipe_succeeds:
  assumes "\<not> channel_fails (path_join folder ''video_stream'') w"
  shows "create_named_pipe folder w =
           (Some (path_join folder ''video_stream''),
            w\<lparr>fs := (fs w)(path_join folder ''video_stream'' \<mapsto> fresh_fifo),
              trace := trace w @
                (if fs w (path_join folder ''video_stream'') = None then []
                 else [Remove (path_join folder ''video_stream'')]) @
                [Mkfifo (path_join folder ''video_stream'')]\<rparr>)"
  by (simp add: create_named_pipe_def remove_then_mkfifo_succeeds [OF assms] Let_def)

lemma start_ffmpeg_conversion_fails:
  assumes "channel_fails (path_join (dirname pipe_path) ''mp4_stream'') w"
  shows "fst (start_ffmpeg_conversion pipe_path out w) = Ok None \<and>
         next_pid (snd (start_ffmpeg_conversion pipe_path out w)) = next_pid w \<and>
         launches (snd (start_ffmpeg_conversion pipe_path out w)) = launches w \<and>
         fs (snd (start_ffmpeg_conversion pipe_path out w))
            (path_join (dirname pipe_path) ''mp4_stream'') =
           (if removal_fails (path_join (dirname pipe_path) ''mp4_stream'') w
            then fs w (path_join (dirname pipe_path) ''mp4_stream'') else None)"
proof -
  from remove_then_mkfifo_fails [OF assms] obtain e w' where
    "remove_then_mkfifo (path_join (dirname pipe_path) ''mp4_stream'') w = (Raised e, w')"
    "fs w' (path_join (dirname pipe_path) ''mp4_stream'') =
       (if removal_fails (path_join (dirname pipe_path) ''mp4_stream'') w
        then fs w (path_join (dirname pipe_path) ''mp4_stream'') else None)"
    "next_pid w' = next_pid w" "launches w' = launches w"
    by blast
  then show ?thesis
    by (simp add: start_ffmpeg_conversion_def print_def emit_def Let_def launches_def)
qed

lemma start_ffmpeg_conversion_succeeds:
  assumes "\<not> channel_fails (path_join (dirname pipe_path) ''mp4_stream'') w"
  shows "fst (start_ffmpeg_conversion pipe_path out w) \<noteq> Ok None \<and>
         fs (snd (start_ffmpeg_conversion pipe_path out w))
            (path_join (dirname pipe_path) ''mp4_stream'') = Some fresh_fifo \<and>
         (\<exists>ev. trace (snd (start_ffmpeg_conversion pipe_path out w)) =
            trace w @
              (if fs w (path_join (dirname pipe_path) ''mp4_stream'') = None then []
               else [Remove (path_join (dirname pipe_path) ''mp4_stream'')]) @
              [Mkfifo (path_join (dirname pipe_path) ''mp4_stream''), ev])"
  by (simp add: start_ffmpeg_conversion_def remove_then_mkfifo_succeeds [OF assms] Let_def
        popen_def emit_def split: option.split)

subsection \<open>Start: the cipher stage and the threads\<close>








subsection \<open>The pumps at work\<close>

lemma stream_loop_reports_bytes:
  "stream_loop ts b c out pr = Some (out', pr') \<Longrightarrow> b = length out \<Longrightarrow>
   (\<exists>c'. pr' \<noteq> [] \<and> (last pr' = TotalStreamed (length out') c' \<or>
                       last pr' = StreamError (length out')))"
proof (induction ts arbitrary: b c out pr)
  case Nil
  then show ?case by simp
next
  case (Cons t ts)
  show ?case
  proof (cases "flag t \<and> alive t")
    case False
    with Cons.prems show ?thesis by auto
  next
    case True
    show ?thesis
    proof (cases "rd t")
      case ReadRaises
      with True Cons.prems show ?thesis by auto
    next
      case (Chunk data)
      show ?thesis
      proof (cases "data = []")
        case True
        with \<open>flag t \<and> alive t\<close> Chunk Cons.prems
        have "stream_loop ts b c out pr = Some (out', pr')" by simp
        from Cons.IH [OF this Cons.prems(2)] show ?thesis .
      next
        case False
        show ?thesis
        proof (cases "wr_ok t")
          case False
          with \<open>flag t \<and> alive t\<close> Chunk \<open>data \<noteq> []\<close> Cons.prems show ?thesis by auto
        next
          case True
          with \<open>flag t \<and> alive t\<close> Chunk \<open>data \<noteq> []\<close> Cons.prems
          have "stream_loop ts (b + length data) (c + 1) (out @ data)
                  (if (c + 1) mod 100 = 0 then pr @ [Progress (b + length data) (c + 1)] else pr)
                = Some (out', pr')"
            by (auto simp: Let_def split: if_splits)
          moreover from Cons.prems(2) have "b + length data = length (out @ data)" by simp
          ultimately show ?thesis by (rule Cons.IH)
        qed
      qed
    qed
  qed
qed

subsection \<open>The sample session\<close>

lemma active_recorder_eval:
  "recording_active active_recorder \<and>
   processes active_recorder ''camera'' = Some 0 \<and>
   processes active_recorder ''ffmpeg'' = Some 1 \<and>
   processes active_recorder ''gpg'' = None \<and>
   output_file active_recorder = Some (''/rec'', ''recording_T0.mp4'')"
  by (simp add: active_recorder_def recorder_defs os_defs demo_defs Let_def)

lemma active_world_eval:
  "next_pid active_world = 2 \<and>
   fs active_world (''/rec'', ''recording_T0.mp4'') = None \<and>
   trace active_world =
     [Mkfifo (''/rec'', ''video_stream''), Popen ''rpicam-vid'' 0,
      ThreadStart ''stream_to_pipe'', Mkfifo (''/rec'', ''mp4_stream''), Popen ''ffmpeg'' 1,
      Print (ConceptualEncryption (''/rec'', ''mp4_stream'') (''/rec'', ''recording_T0.mp4'')),
      ThreadStart ''copy_mp4_to_output'', ThreadStart ''blink_led_recording'',
      Print (PipelineStarted (''/rec'', ''recording_T0.mp4''))]"
  by (simp add: active_world_def recorder_defs os_defs demo_defs Let_def)

section \<open>The claims\<close>

subsection \<open>C1: starting while a session is active\<close>

text \<open>
  Claim C1 as stated: in every state with \<open>recording_active\<close> true,
  \<^verbatim>\<open>start_streaming_recording\<close> returns false, launches nothing and leaves the
  first session untouched.

  The method has no such test. Called a second time on the recorder of the
  sample session it returns \<open>True\<close> again, launches the processes 2 and 3,
  and overwrites the entry of the camera and the output file.
\<close>

theorem start_while_active_starts_again:
  "recording_active active_recorder \<and>
   fst (start_streaming_recording ''/rec2'' active_recorder active_world) = True \<and>
   processes active_recorder ''camera'' = Some 0 \<and>
   processes (fst (snd (start_streaming_recording ''/rec2'' active_recorder active_world)))
     ''camera'' = Some 2 \<and>
   output_file active_recorder = Some (''/rec'', ''recording_T0.mp4'') \<and>
   output_file (fst (snd (start_streaming_recording ''/rec2'' active_recorder active_world)))
     = Some (''/rec2'', ''recording_T0.mp4'') \<and>
   next_pid active_world = 2 \<and>
   next_pid (snd (snd (start_streaming_recording ''/rec2'' active_recorder active_world))) = 4"
  by (simp add: active_recorder_def active_world_def recorder_defs os_defs demo_defs Let_def)

text \<open>
  Claim C1 as amended: the test for an active session is made by the caller. In
  the button handler of \<^verbatim>\<open>main\<close>, a release of the button while
  \<open>recording_active\<close> is true never reaches \<^verbatim>\<open>start_streaming_recording\<close>: a
  short press (under 0.5 s) calls \<^verbatim>\<open>stop_streaming_recording\<close>, a longer one
  does nothing, and in both cases no process is launched (\<open>next_pid\<close> and the
  \<open>Popen\<close> events of the trace are unchanged).
\<close>

theorem main_never_starts_while_active:
  assumes "recording_active r"
  shows "\<exists>r' w'. button_released press_duration current_time start_cooldown_until r w =
                   Ok (start_cooldown_until, r', w') \<and>
                 (r', w') = (if press_duration < 0.5 then stop_streaming_recording r w else (r, w)) \<and>
                 next_pid w' = next_pid w \<and> launches w' = launches w"
proof (cases "press_duration < 0.5")
  case False
  with assms show ?thesis by (simp add: button_released_def)
next
  case True
  obtain r' w' where s: "stop_streaming_recording r w = (r', w')"
    by (cases "stop_streaming_recording r w")
  with stop_fields [of r w] stop_launches [of r w]
  have "next_pid w' = next_pid w" "launches w' = launches w" by simp_all
  with assms True s show ?thesis by (simp add: button_released_def)
qed

text \<open>The amended claim at the sample session, for a press of 0.1 s.\<close>

theorem main_never_starts_while_active_witness:
  "recording_active active_recorder \<and>
   button_released (1 / 10) 10 0 active_recorder active_world =
     Ok (0, stop_streaming_recording active_recorder active_world) \<and>
   next_pid (snd (stop_streaming_recording active_recorder active_world)) = 2"
proof -
  have a: "recording_active active_recorder" using active_recorder_eval by simp
  from main_never_starts_while_active [OF a, of "1 / 10" 10 0 active_world]
  obtain r' w' where
    "button_released (1 / 10) 10 0 active_recorder active_world = Ok (0, r', w')"
    "(r', w') = stop_streaming_recording active_recorder active_world"
    "next_pid w' = next_pid active_world"
    by auto
  with a active_world_eval show ?thesis by (metis snd_conv)
qed

subsection \<open>C2: the order of termination\<close>

text \<open>
  Claim C2 as stated: stop terminates the stages in the reverse of the launch
  order, the cipher or output stage first, then \<^verbatim>\<open>ffmpeg\<close>, then the camera,
  never in launch order.

  The loop runs over \<^verbatim>\<open>['camera', 'ffmpeg', 'gpg']\<close>, the order its comment
  spells out (``camera -> ffmpeg -> gpg''), and that is the launch order. In
  the sample session the camera was launched as process 0 and \<^verbatim>\<open>ffmpeg\<close> as
  process 1; stop first sends the signal to the camera and waits for it, and
  only then closes the standard input of \<^verbatim>\<open>ffmpeg\<close> and waits for it.
\<close>

theorem stop_terminates_camera_first:
  "processes active_recorder ''camera'' = Some 0 \<and>
   processes active_recorder ''ffmpeg'' = Some 1 \<and>
   processes active_recorder ''gpg'' = None \<and>
   launches active_world = [Popen ''rpicam-vid'' 0, Popen ''ffmpeg'' 1] \<and>
   trace (snd (stop_streaming_recording active_recorder (active_world\<lparr>trace := []\<rparr>))) =
     [Print Stopping,
      Poll 0, Print (StoppingProcess ''camera''), Terminate 0, Wait 0,
      Print (StoppedGracefully ''camera''),
      Poll 1, Print (StoppingProcess ''ffmpeg''), CloseStdin 1, Wait 1,
      Print (StoppedGracefully ''ffmpeg''),
      Remove (''/rec'', ''video_stream''), Remove (''/rec'', ''mp4_stream''),
      Print NoOutputFile, LedLow]"
  by (simp add: active_recorder_def active_world_def recorder_defs os_defs demo_defs
        launches_def Let_def)

text \<open>
  Claim C2 as amended: stop handles the stages source first, in the order
  camera, \<^verbatim>\<open>ffmpeg\<close>, \<^verbatim>\<open>gpg\<close>, which is the order of their launch. In every
  world, all the calls stop makes on the camera's process come before all the
  calls on the process of \<^verbatim>\<open>ffmpeg\<close>, and these before all the calls on the
  process of \<^verbatim>\<open>gpg\<close>; a stage that is stored gets at least one call, a stage
  that is not stored gets none.
\<close>

theorem stop_calls_camera_then_ffmpeg_then_gpg:
  "\<exists>i j k. called_on (snd (stop_streaming_recording r w)) =
             called_on w @ stage_calls r ''camera'' i @ stage_calls r ''ffmpeg'' j @
               stage_calls r ''gpg'' k"
proof -
  let ?r1 = "r\<lparr>recording_active := False\<rparr>"
  let ?w2 = "(print Stopping w)\<lparr>encryption_active := False\<rparr>"
  let ?wa = "stop_stage ?r1 ''camera'' ?w2"
  let ?wb = "stop_stage ?r1 ''ffmpeg'' ?wa"
  let ?wc = "stop_stage ?r1 ''gpg'' ?wb"
  have same: "stage_calls ?r1 n i = stage_calls r n i" for n i
    by (simp add: stage_calls_def)
  from stop_stage_calls [of ?r1 "''camera''" ?w2] obtain i where
    a: "called_on ?wa = called_on ?w2 @ stage_calls r ''camera'' i"
    unfolding same by blast
  from stop_stage_calls [of ?r1 "''ffmpeg''" ?wa] obtain j where
    b: "called_on ?wb = called_on ?wa @ stage_calls r ''ffmpeg'' j"
    unfolding same by blast
  from stop_stage_calls [of ?r1 "''gpg''" ?wb] obtain k where
    c: "called_on ?wc = called_on ?wb @ stage_calls r ''gpg'' k"
    unfolding same by blast
  have w2: "called_on ?w2 = called_on w"
    by (simp add: print_def emit_def called_on_def)
  have "called_on (snd (stop_streaming_recording r w)) =
          called_on (cleanup_pipes ?r1 (stop_stages ?r1 stop_order ?w2))"
    by (simp add: stop_streaming_recording_eq Let_def print_def emit_def called_on_def)
  also have "\<dots> = called_on (stop_stages ?r1 stop_order ?w2)"
    by (rule cleanup_pipes_calls)
  also have "stop_stages ?r1 stop_order ?w2 = ?wc"
    by (simp add: stop_order_def)
  also note c
  finally have "called_on (snd (stop_streaming_recording r w)) =
      called_on w @ stage_calls r ''camera'' i @ stage_calls r ''ffmpeg'' j @
        stage_calls r ''gpg'' k"
    using a b w2 by simp
  then show ?thesis by blast
qed

text \<open>The amended claim at the sample session: three calls on process 0, then three on process 1.\<close>

theorem stop_calls_camera_then_ffmpeg_then_gpg_witness:
  "called_on (snd (stop_streaming_recording active_recorder (active_world\<lparr>trace := []\<rparr>))) =
     [0, 0, 0, 1, 1, 1] \<and>
   stage_calls active_recorder ''camera'' 2 = [0, 0, 0] \<and>
   stage_calls active_recorder ''ffmpeg'' 2 = [1, 1, 1] \<and>
   stage_calls active_recorder ''gpg'' 0 = []"
  using stop_calls_camera_then_ffmpeg_then_gpg [of active_recorder "active_world\<lparr>trace := []\<rparr>"]
  by (simp add: active_recorder_def active_world_def recorder_defs os_defs demo_defs
        called_on_def stage_calls_def Let_def eval_nat_numeral)

subsection \<open>C3 and C4: failures during start\<close>

text \<open>
  Claim C3: a failure of a later step of start (such as creating the second
  pipe) runs the whole unwinding of stop, so that the camera stage and the first
  pipe are gone before start returns false.

  The code does not do this. Only a raised exception reaches the handler that
  calls \<^verbatim>\<open>stop_streaming_recording\<close>; the failure of the second pipe is caught
  inside \<^verbatim>\<open>start_ffmpeg_conversion\<close>, which returns \<^verbatim>\<open>(None, None)\<close>, and
  start answers with a plain \<^verbatim>\<open>return False\<close>. In a world where \<^verbatim>\<open>os.mkfifo\<close>
  is refused for \<^verbatim>\<open>/rec/mp4_stream\<close> the call returns \<open>False\<close> while the camera
  process 0 is still in the map and still running, the flag is still set, the
  pipe \<^verbatim>\<open>/rec/video_stream\<close> still exists, and no call of the stop protocol
  appears in the trace (first equation).

  Where the handler is reached, in a world in which launching \<^verbatim>\<open>ffmpeg\<close>
  raises, stop does run and the camera is terminated, but stop finds the
  directory of the pipes through \<^verbatim>\<open>self.output_file\<close>, which start has not
  set yet: both pipes are left behind (second equation).
\<close>

theorem start_mp4_pipe_failure_leaves_camera_running:
  "(case start_streaming_recording ''/rec'' init_recorder
           (demo_world\<lparr>mkfifo_denied := (\<lambda>p. p = (''/rec'', ''mp4_stream''))\<rparr>) of
      (ok, r, w) \<Rightarrow>
        (ok, recording_active r, map (processes r) stop_order, running (procs w 0),
         fs w (''/rec'', ''video_stream''), trace w))
   = (False, True, [Some 0, None, None], True, Some \<lparr>kind = Fifo, st_size = 0\<rparr>,
      [Mkfifo (''/rec'', ''video_stream''), Popen ''rpicam-vid'' 0,
       ThreadStart ''stream_to_pipe'', Mkfifo (''/rec'', ''mp4_stream''),
       Print Mp4PipeError]) \<and>
   (case start_streaming_recording ''/rec'' init_recorder
           (demo_world\<lparr>launch :=
              (\<lambda>cmd. if cmd = ''rpicam-vid'' then Some quiet_proc else None)\<rparr>) of
      (ok, r, w) \<Rightarrow>
        (ok, recording_active r, map (processes r) stop_order, running (procs w 0),
         fs w (''/rec'', ''video_stream''), fs w (''/rec'', ''mp4_stream''), trace w))
   = (False, False, [None, None, None], False, Some \<lparr>kind = Fifo, st_size = 0\<rparr>,
      Some \<lparr>kind = Fifo, st_size = 0\<rparr>,
      [Mkfifo (''/rec'', ''video_stream''), Popen ''rpicam-vid'' 0,
       ThreadStart ''stream_to_pipe'', Mkfifo (''/rec'', ''mp4_stream''),
       PopenFailed ''ffmpeg'', Print StartError, Print Stopping, Poll 0,
       Print (StoppingProcess ''camera''), Terminate 0, Wait 0,
       Print (StoppedGracefully ''camera''), Print NoOutputFile, LedLow])"
  by (simp add: recorder_defs os_defs demo_defs Let_def)

text \<open>
  Claim C4: if creating the camera pipe fails, start returns false and the
  pipeline is Idle, the flag \<open>recording_active\<close> being false as before the call.

  The code does not do this. The flag is set before the \<^verbatim>\<open>try\<close> block and the
  \<^verbatim>\<open>return False\<close> after \<^verbatim>\<open>create_named_pipe\<close> leaves it set: started on the
  idle recorder in a world where \<^verbatim>\<open>os.mkfifo\<close> is refused for
  \<^verbatim>\<open>/rec/video_stream\<close>, the call returns \<open>False\<close> with \<open>recording_active\<close>
  true. Nothing was launched and no output file is recorded.
\<close>

theorem start_pipe_failure_leaves_flag_set:
  "(case start_streaming_recording ''/rec'' init_recorder
           (demo_world\<lparr>mkfifo_denied := (\<lambda>p. p = (''/rec'', ''video_stream''))\<rparr>) of
      (ok, r, w) \<Rightarrow>
        (recording_active init_recorder, ok, recording_active r,
         map (processes r) stop_order, output_file r, trace w, next_pid w))
   = (False, False, True, [None, None, None], None,
      [Mkfifo (''/rec'', ''video_stream''), Print PipeError], 0)"
  by (simp add: recorder_defs os_defs demo_defs Let_def)

subsection \<open>C5: stop is idempotent\<close>

text \<open>
  Claim C5: stop on an Idle recorder is a no-op that changes no pipeline state
  and does not throw, and stop after stop equals a single stop.

  Every call of stop that can raise sits inside a \<^verbatim>\<open>try\<close> block whose handler
  only prints, so stop is a total function here. On an Idle recorder it returns
  the recorder as it was; in the world it clears \<^verbatim>\<open>ENCRYPTION_ACTIVE\<close>, sets
  the LED low and prints two messages, and touches neither the file system nor
  any process. After any stop the recorder is Idle, and a second stop changes
  nothing but the trace.
\<close>

theorem stop_idempotent:
  "(idle r \<longrightarrow>
      stop_streaming_recording r w =
        (r, w\<lparr>encryption_active := False, led := False,
              trace := trace w @ [Print Stopping, Print NoOutputFile, LedLow]\<rparr>)) \<and>
   (case stop_streaming_recording r w of
      (r1, w1) \<Rightarrow>
        idle r1 \<and>
        stop_streaming_recording r1 w1 =
          (r1, w1\<lparr>trace := trace w1 @ [Print Stopping, Print NoOutputFile, LedLow]\<rparr>))"
proof -
  have first: "idle r \<longrightarrow> stop_streaming_recording r w =
        (r, w\<lparr>encryption_active := False, led := False,
              trace := trace w @ [Print Stopping, Print NoOutputFile, LedLow]\<rparr>)"
    for r w
    by (simp add: idle_def stop_streaming_recording_def stop_order_def stop_stage_def
          cleanup_pipes_def check_final_output_def print_def emit_def Let_def)
  obtain r1 w1 where s: "stop_streaming_recording r w = (r1, w1)"
    by (cases "stop_streaming_recording r w")
  then have i1: "idle r1"
    by (auto simp: stop_streaming_recording_def idle_def Let_def)
  from stop_fields [of r w] s have "encryption_active w1 = False" "led w1 = False"
    by simp_all
  then have "w1\<lparr>encryption_active := False, led := False,
              trace := trace w1 @ [Print Stopping, Print NoOutputFile, LedLow]\<rparr> =
            w1\<lparr>trace := trace w1 @ [Print Stopping, Print NoOutputFile, LedLow]\<rparr>"
    by (cases w1) simp
  with first [of r1 w1] i1
  have second: "stop_streaming_recording r1 w1 =
      (r1, w1\<lparr>trace := trace w1 @ [Print Stopping, Print NoOutputFile, LedLow]\<rparr>)"
    by simp
  have "case stop_streaming_recording r w of
      (r1, w1) \<Rightarrow>
        idle r1 \<and>
        stop_streaming_recording r1 w1 =
          (r1, w1\<lparr>trace := trace w1 @ [Print Stopping, Print NoOutputFile, LedLow]\<rparr>)"
    unfolding s using i1 second by simp
  with first [of r w] show ?thesis by blast
qed

text \<open>Claim C5 at the fresh recorder in the sample world.\<close>

theorem stop_idempotent_witness:
  "idle init_recorder \<and>
   stop_streaming_recording init_recorder demo_world =
     (init_recorder,
      demo_world\<lparr>encryption_active := False, led := False,
                  trace := trace demo_world @ [Print Stopping, Print NoOutputFile, LedLow]\<rparr>)"
proof -
  have i: "idle init_recorder" by (simp add: idle_def init_recorder_def)
  with stop_idempotent [of init_recorder demo_world] show ?thesis by blast
qed

subsection \<open>C6: the pumps at the end of the stream\<close>

text \<open>
  Claim C6 as stated: in both pumps a zero-length read ends the copy loop, and
  on exit the pump reports the total number of bytes moved.

  Neither half holds for both pumps. The camera pump answers a zero-length read
  with \<^verbatim>\<open>time.sleep(0.001)\<close> and reads again: after such a read it still moves
  the three bytes that follow. The output pump does end at a zero-length read,
  but it keeps no counter and prints nothing.
\<close>

theorem pumps_do_not_both_exit_and_report:
  "stream_to_pipe True [eof_tick, data_tick [1, 2, 3], exited_tick] =
     Some ([1, 2, 3], [TotalStreamed 3 1]) \<and>
   copy_mp4_to_output True [data_tick [1, 2], eof_tick] = Some ([1, 2], [])"
  by (simp add: stream_to_pipe_def copy_mp4_to_output_def eof_tick_def data_tick_def
        exited_tick_def)

text \<open>
  Claim C6 as amended: the output pump \<^verbatim>\<open>copy_mp4_to_output\<close> leaves its loop at
  a zero-length read or when the flag is cleared, and reports nothing. The
  camera pump \<^verbatim>\<open>stream_to_pipe\<close> does not leave its loop at a zero-length read;
  it leaves it when the flag is cleared or the camera process has exited, and
  then reports the total number of bytes moved: whenever it ends, its last
  message carries the number of bytes it wrote to the pipe.
\<close>

theorem pump_exit_and_report:
  "(flag t \<and> rd t = Chunk [] \<longrightarrow> copy_loop (t # ts) out = Some (out, [])) \<and>
   (\<not> flag t \<longrightarrow> copy_loop (t # ts) out = Some (out, [])) \<and>
   (flag t \<and> alive t \<and> rd t = Chunk [] \<longrightarrow>
      stream_loop (t # ts) b c out pr = stream_loop ts b c out pr) \<and>
   (\<not> (flag t \<and> alive t) \<longrightarrow>
      stream_loop (t # ts) b c out pr = Some (out, pr @ [TotalStreamed b c])) \<and>
   (stream_to_pipe True obs = Some (out', pr') \<longrightarrow>
      (\<exists>c'. last pr' = TotalStreamed (length out') c' \<or> last pr' = StreamError (length out')))"
proof -
  have "\<exists>c'. last pr' = TotalStreamed (length out') c' \<or> last pr' = StreamError (length out')"
    if "stream_to_pipe True obs = Some (out', pr')"
  proof -
    from that have "stream_loop obs 0 0 [] [] = Some (out', pr')"
      by (simp add: stream_to_pipe_def)
    from stream_loop_reports_bytes [OF this] show ?thesis by auto
  qed
  then show ?thesis by simp
qed

text \<open>The amended claim on the three sample observations.\<close>

theorem pump_exit_and_report_witness:
  "flag eof_tick \<and> alive eof_tick \<and> rd eof_tick = Chunk [] \<and> \<not> (flag exited_tick \<and> alive exited_tick) \<and>
   copy_loop [eof_tick, exited_tick] [7] = Some ([7], []) \<and>
   stream_loop [eof_tick, exited_tick] 1 1 [7] [] = stream_loop [exited_tick] 1 1 [(7::nat)] [] \<and>
   stream_loop [exited_tick] 1 1 [7] [] = Some ([7], [TotalStreamed 1 1]) \<and>
   stream_to_pipe True [data_tick [1, 2, 3], exited_tick] = Some ([1, 2, 3], [TotalStreamed 3 1]) \<and>
   (\<exists>c'. last [TotalStreamed 3 1] = TotalStreamed (length [1, 2, 3::nat]) c' \<or>
         last [TotalStreamed 3 1] = StreamError (length [1, 2, 3::nat]))"
proof -
  have s: "stream_to_pipe True [data_tick [1, 2, 3], exited_tick] = Some ([1, 2, 3], [TotalStreamed 3 1])"
    by (simp add: stream_to_pipe_def data_tick_def exited_tick_def)
  have e: "flag eof_tick \<and> alive eof_tick \<and> rd eof_tick = Chunk []"
    by (simp add: eof_tick_def)
  have x: "\<not> (flag exited_tick \<and> alive exited_tick)" by (simp add: exited_tick_def)
  from pump_exit_and_report [of eof_tick "[exited_tick]" "[7]" 1 1 "[]" "[data_tick [1, 2, 3], exited_tick]"
            "[1, 2, 3]" "[TotalStreamed 3 1]"]
    pump_exit_and_report [of exited_tick "[]" "[7]" 1 1 "[]" "[data_tick [1, 2, 3], exited_tick]"
            "[1, 2, 3]" "[TotalStreamed 3 1]"]
    s e x
  show ?thesis by (simp add: eof_tick_def exited_tick_def)
qed

subsection \<open>C7: one failing stage does not stop the others\<close>

text \<open>
  Claim C7: an exception raised while one stage is terminated does not keep the
  protocol from the remaining stages; every stage present in the map has its
  termination attempted.

  The world, and with it every flag that makes a call raise or time out, is
  arbitrary in both parts. First, the \<^verbatim>\<open>try\<close> block of the loop starts with
  \<^verbatim>\<open>process.poll()\<close>, and the processes polled by stop are exactly the ones
  stored under \<^verbatim>\<open>camera\<close>, \<^verbatim>\<open>ffmpeg\<close> and \<^verbatim>\<open>gpg\<close>, each once, in this order.
  Second, for a stage whose process is stored under no other name, the calls
  stop makes on that process are exactly the calls of the stage's own
  \<^verbatim>\<open>try\<close> block run alone on the process as stop found it: what the other
  stages do, raising included, adds and removes nothing.
\<close>

theorem stop_visits_every_stage:
  "polled (snd (stop_streaming_recording r w)) =
     polled w @ List.map_filter (processes r) [''camera'', ''ffmpeg'', ''gpg''] \<and>
   (n \<in> set [''camera'', ''ffmpeg'', ''gpg''] \<and> processes r n = Some pid \<and>
    (\<forall>m \<in> set [''camera'', ''ffmpeg'', ''gpg'']. m \<noteq> n \<longrightarrow> processes r m \<noteq> Some pid) \<longrightarrow>
    stage_events pid (snd (stop_streaming_recording r w)) =
      stage_events pid w @ stage_events pid (snd (stop_process n pid (w\<lparr>trace := []\<rparr>))))"
proof -
  let ?r1 = "r\<lparr>recording_active := False\<rparr>"
  let ?w2 = "(print Stopping w)\<lparr>encryption_active := False\<rparr>"
  from stop_teardown_trace [of ?r1 ?w2] obtain evs where
    evs: "trace (cleanup_pipes ?r1 (stop_stages ?r1 stop_order ?w2)) = trace ?w2 @ evs"
         "concat (map poll_pid evs) = List.map_filter (processes ?r1) stop_order"
    by blast
  then have "polled (snd (stop_streaming_recording r w)) =
     polled w @ List.map_filter (processes r) [''camera'', ''ffmpeg'', ''gpg'']"
    by (simp add: stop_streaming_recording_eq polled_def Let_def print_def emit_def stop_order_def)
  moreover have "stage_events pid (snd (stop_streaming_recording r w)) =
      stage_events pid w @ stage_events pid (snd (stop_process n pid (w\<lparr>trace := []\<rparr>)))"
    if "n \<in> set [''camera'', ''ffmpeg'', ''gpg'']" "processes r n = Some pid"
       "\<forall>m \<in> set [''camera'', ''ffmpeg'', ''gpg'']. m \<noteq> n \<longrightarrow> processes r m \<noteq> Some pid"
    using that stop_stage_isolated [of n r pid w] unfolding stop_order_def by blast
  ultimately show ?thesis by blast
qed

text \<open>
  Claim C7 in a world where \<^verbatim>\<open>terminate()\<close> raises for the camera: the camera
  is polled and sent the signal, and \<^verbatim>\<open>ffmpeg\<close> still has its standard input
  closed and is waited for.
\<close>

theorem stop_visits_every_stage_witness:
  "polled (snd (stop_streaming_recording active_recorder camera_failing_world)) = [0, 1] \<and>
   ''ffmpeg'' \<in> set [''camera'', ''ffmpeg'', ''gpg''] \<and>
   processes active_recorder ''ffmpeg'' = Some 1 \<and>
   processes active_recorder ''camera'' \<noteq> Some 1 \<and>
   processes active_recorder ''gpg'' \<noteq> Some 1 \<and>
   stage_events 0 (snd (stop_streaming_recording active_recorder camera_failing_world)) =
     [Poll 0, Terminate 0] \<and>
   stage_events 1 (snd (stop_streaming_recording active_recorder camera_failing_world)) =
     [Poll 1, CloseStdin 1, Wait 1]"
proof -
  have h: "''ffmpeg'' \<in> set [''camera'', ''ffmpeg'', ''gpg''] \<and>
     processes active_recorder ''ffmpeg'' = Some 1 \<and>
     (\<forall>m \<in> set [''camera'', ''ffmpeg'', ''gpg''].
        m \<noteq> ''ffmpeg'' \<longrightarrow> processes active_recorder m \<noteq> Some 1)"
    using active_recorder_eval by simp
  have g: "''camera'' \<in> set [''camera'', ''ffmpeg'', ''gpg''] \<and>
     processes active_recorder ''camera'' = Some 0 \<and>
     (\<forall>m \<in> set [''camera'', ''ffmpeg'', ''gpg''].
        m \<noteq> ''camera'' \<longrightarrow> processes active_recorder m \<noteq> Some 0)"
    using active_recorder_eval by simp
  have p: "List.map_filter (processes active_recorder) [''camera'', ''ffmpeg'', ''gpg''] = [0, 1]"
    using active_recorder_eval by simp
  have e1: "stage_events 1 (snd (stop_process ''ffmpeg'' 1 (camera_failing_world\<lparr>trace := []\<rparr>))) =
       [Poll 1, CloseStdin 1, Wait 1]"
    by (simp add: camera_failing_world_def active_world_def recorder_defs os_defs demo_defs
          stage_events_def Let_def)
  have e0: "stage_events 0 (snd (stop_process ''camera'' 0 (camera_failing_world\<lparr>trace := []\<rparr>))) =
       [Poll 0, Terminate 0]"
    by (simp add: camera_failing_world_def active_world_def recorder_defs os_defs demo_defs
          stage_events_def Let_def)
  have t: "trace camera_failing_world = []" by (simp add: camera_failing_world_def)
  from stop_visits_every_stage [of active_recorder camera_failing_world "''ffmpeg''" 1]
    stop_visits_every_stage [of active_recorder camera_failing_world "''camera''" 0] h g p e0 e1 t
  show ?thesis by (simp add: polled_def stage_events_def)
qed

subsection \<open>C8: the verdict on the output file\<close>

text \<open>
  Claim C8: at the end of every stop of a started session the output file is
  judged with exactly one of three different messages: success when it exists
  with a size above zero, a warning when it exists and is empty, an error when
  it is missing.

  A started session has recorded an output file \<^verbatim>\<open>recording_<timestamp>.mp4\<close>.
  Stop then adds exactly one of the three messages to the trace, chosen by the
  file system as stop found it (stopping the stages and removing the two pipes
  do not touch that file); the three messages are different constructors.
\<close>

theorem stop_reports_one_verdict:
  assumes "output_file r = Some (folder, ''recording_'' @ ts @ ''.mp4'')"
  shows "verdicts (snd (stop_streaming_recording r w)) =
           verdicts w @
           [Print (case fs w (folder, ''recording_'' @ ts @ ''.mp4'') of
                     None \<Rightarrow> NoOutputFile
                   | Some ob \<Rightarrow>
                       if st_size ob > 0
                       then RecordingComplete (folder, ''recording_'' @ ts @ ''.mp4'') (st_size ob)
                       else OutputEmpty)]"
proof -
  have "verdicts (snd (stop_streaming_recording r w)) =
          verdicts w @ [Print (final_message (Some (folder, ''recording_'' @ ts @ ''.mp4'')) w)]"
    using assms by (rule stop_verdict) simp_all
  then show ?thesis unfolding final_message_def option.case .
qed

text \<open>Claim C8 at the sample session, once ten chunks of 64 KiB have reached the file.\<close>

theorem stop_reports_one_verdict_witness:
  "output_file active_recorder = Some (''/rec'', ''recording_'' @ ''T0'' @ ''.mp4'') \<and>
   verdicts (snd (stop_streaming_recording active_recorder
      (active_world\<lparr>fs := (fs active_world)((''/rec'', ''recording_T0.mp4'') \<mapsto>
                                \<lparr>kind = Regular, st_size = 655360\<rparr>)\<rparr>))) =
     [Print (RecordingComplete (''/rec'', ''recording_T0.mp4'') 655360)]"
proof -
  have o: "output_file active_recorder = Some (''/rec'', ''recording_'' @ ''T0'' @ ''.mp4'')"
    using active_recorder_eval by simp
  from stop_reports_one_verdict [OF o,
      of "active_world\<lparr>fs := (fs active_world)((''/rec'', ''recording_T0.mp4'') \<mapsto>
                                \<lparr>kind = Regular, st_size = 655360\<rparr>)\<rparr>"]
    o active_world_eval
  show ?thesis by (simp add: verdicts_def)
qed

subsection \<open>C9: creating a channel\<close>

text \<open>
  Claim C9: both channel creations (\<^verbatim>\<open>create_named_pipe\<close> and the second pipe
  inside \<^verbatim>\<open>start_ffmpeg_conversion\<close>) remove an object found at the path before
  the pipe is created, and a failure of the removal or of the creation gives
  the error result \<^verbatim>\<open>None\<close>, never a partial channel.

  \<open>channel_fails\<close> holds exactly when the shared \<^verbatim>\<open>try\<close> body raises
  (\<open>channel_fails_iff\<close>). When it holds, \<^verbatim>\<open>create_named_pipe\<close> returns
  \<^verbatim>\<open>None\<close> and \<^verbatim>\<open>start_ffmpeg_conversion\<close> returns \<^verbatim>\<open>(None, None)\<close> without
  launching \<^verbatim>\<open>ffmpeg\<close>. When it does not, the path holds a fresh pipe and the
  calls were, in this order, the removal of the old object (if there was one)
  and \<^verbatim>\<open>os.mkfifo\<close>; in \<^verbatim>\<open>start_ffmpeg_conversion\<close> the launch follows.
\<close>

theorem channel_creation_replaces_or_fails:
  "(channel_fails (path_join folder ''video_stream'') w \<longrightarrow>
      fst (create_named_pipe folder w) = None) \<and>
   (\<not> channel_fails (path_join folder ''video_stream'') w \<longrightarrow>
      create_named_pipe folder w =
        (Some (path_join folder ''video_stream''),
         w\<lparr>fs := (fs w)(path_join folder ''video_stream'' \<mapsto> fresh_fifo),
           trace := trace w @
             (if fs w (path_join folder ''video_stream'') = None then []
              else [Remove (path_join folder ''video_stream'')]) @
             [Mkfifo (path_join folder ''video_stream'')]\<rparr>)) \<and>
   (channel_fails (path_join (dirname pipe_path) ''mp4_stream'') w \<longrightarrow>
      fst (start_ffmpeg_conversion pipe_path out w) = Ok None \<and>
      launches (snd (start_ffmpeg_conversion pipe_path out w)) = launches w) \<and>
   (\<not> channel_fails (path_join (dirname pipe_path) ''mp4_stream'') w \<longrightarrow>
      fst (start_ffmpeg_conversion pipe_path out w) \<noteq> Ok None \<and>
      fs (snd (start_ffmpeg_conversion pipe_path out w))
         (path_join (dirname pipe_path) ''mp4_stream'') = Some fresh_fifo \<and>
      (\<exists>ev. trace (snd (start_ffmpeg_conversion pipe_path out w)) =
         trace w @
           (if fs w (path_join (dirname pipe_path) ''mp4_stream'') = None then []
            else [Remove (path_join (dirname pipe_path) ''mp4_stream'')]) @
           [Mkfifo (path_join (dirname pipe_path) ''mp4_stream''), ev]))"
  using create_named_pipe_fails [of folder w] create_named_pipe_succeeds [of folder w]
    start_ffmpeg_conversion_fails [of pipe_path w out]
    start_ffmpeg_conversion_succeeds [of pipe_path w out]
  by blast

text \<open>
  Claim C9 in three worlds: a stale file that is replaced, a stale file that
  cannot be removed, and a second pipe that cannot be created.
\<close>

theorem channel_creation_replaces_or_fails_witness:
  "\<not> channel_fails (path_join ''/rec'' ''video_stream'') stale_world \<and>
   channel_fails (path_join (dirname (''/rec'', ''video_stream'')) ''mp4_stream'') stale_world \<and>
   channel_fails (path_join ''/rec'' ''video_stream'')
     (stale_world\<lparr>remove_denied := (\<lambda>_. True)\<rparr>) \<and>
   \<not> channel_fails (path_join (dirname (''/rec'', ''video_stream'')) ''mp4_stream'') demo_world \<and>
   fst (create_named_pipe ''/rec'' stale_world) = Some (''/rec'', ''video_stream'') \<and>
   trace (snd (create_named_pipe ''/rec'' stale_world)) =
     [Remove (''/rec'', ''video_stream''), Mkfifo (''/rec'', ''video_stream'')] \<and>
   fst (create_named_pipe ''/rec'' (stale_world\<lparr>remove_denied := (\<lambda>_. True)\<rparr>)) = None \<and>
   fst (start_ffmpeg_conversion (''/rec'', ''video_stream'') (''/rec'', ''out.mp4'') stale_world)
     = Ok None \<and>
   fst (start_ffmpeg_conversion (''/rec'', ''video_stream'') (''/rec'', ''out.mp4'') demo_world)
     \<noteq> Ok None"
  using channel_creation_replaces_or_fails [of "''/rec''" stale_world "(''/rec'', ''video_stream'')" "(''/rec'', ''out.mp4'')"]
    channel_creation_replaces_or_fails [of "''/rec''" "stale_world\<lparr>remove_denied := (\<lambda>_. True)\<rparr>"
           "(''/rec'', ''video_stream'')" "(''/rec'', ''out.mp4'')"]
    channel_creation_replaces_or_fails [of "''/rec''" demo_world "(''/rec'', ''video_stream'')" "(''/rec'', ''out.mp4'')"]
  by (simp add: channel_fails_def removal_fails_def stale_world_def demo_defs path_join_def
        dirname_def)

subsection \<open>C10: the cipher stage is never launched\<close>



end
